theory Spec2Isabelle
  imports Main
begin

section \<open>The data model\<close>


datatype UserRole = USER | ADMIN

datatype ItemType = INSTANT | SEQUENTIAL

datatype TransactionStatus = PENDING | APPROVED | REJECTED

datatype TicketStatus = OPEN | CLOSED

record User =
  user_id :: string
  user_role :: UserRole
  user_credits :: int

record SequentialItem =
  si_content :: string
  si_isDelivered :: bool

record Item =
  item_id :: string
  item_name :: string
  item_price :: int
  item_type :: ItemType
  item_content :: "string option"
  item_sequentialItems :: "SequentialItem list option"
  item_deliveredCount :: int

record Purchase =
  purchase_id :: string
  purchase_userId :: string
  purchase_itemId :: string
  purchase_itemName :: string
  purchase_contentDelivered :: string
  purchase_timestamp :: int
  purchase_price :: int

record Transaction =
  tx_id :: string
  tx_userId :: string
  tx_amount :: int
  tx_status :: TransactionStatus

record RedeemCode =
  rc_code :: string
  rc_amount :: int
  rc_isUsed :: bool

record TicketMessage =
  msg_content :: string
  msg_sender :: string
  msg_timestamp :: int

record Ticket =
  ticket_id :: string
  ticket_messages :: "TicketMessage list"
  ticket_status :: TicketStatus
  ticket_lastUpdated :: int

text \<open>The interface \<^verbatim>\<open>DBState\<close> of \<^verbatim>\<open>db.ts\<close>.\<close>

record DBState =
  users :: "User list"
  items :: "Item list"
  purchases :: "Purchase list"
  transactions :: "Transaction list"
  redeemCodes :: "RedeemCode list"
  tickets :: "Ticket list"

section \<open>The backing medium\<close>

text \<open>
  \<^verbatim>\<open>localStorage\<close> is used under the single key \<^verbatim>\<open>'ebon_shop_db'\<close>. The model keeps
  the value under that key (\<open>None\<close> while the key is absent) as the document that
  \<^verbatim>\<open>JSON.parse\<close> reads from the stored string, and counts the calls of
  \<^verbatim>\<open>localStorage.setItem\<close>, so that "nothing is written" is a statement about the model.
\<close>

record LocalStorage =
  ebon_shop_db :: "DBState option"
  setItem_calls :: nat

definition getInitialState :: "LocalStorage \<Rightarrow> DBState" where
  "getInitialState ls =
     (case ebon_shop_db ls of
        Some stored \<Rightarrow> stored
      | None \<Rightarrow> \<lparr>users = [], items = [], purchases = [], transactions = [],
                  redeemCodes = [], tickets = []\<rparr>)"

definition saveState :: "DBState \<Rightarrow> LocalStorage \<Rightarrow> LocalStorage" where
  "saveState state ls = ls\<lparr>ebon_shop_db := Some state, setItem_calls := Suc (setItem_calls ls)\<rparr>"

section \<open>Array helpers\<close>

text \<open>
  \<^verbatim>\<open>Array.prototype.find\<close> is \<^const>\<open>List.find\<close>: the first element that satisfies the
  predicate. The object it returns is the array's element itself, so an assignment to a
  field of the result changes that element in place; \<open>modify_first\<close> is that assignment.
  \<^verbatim>\<open>findIndex\<close> returns the position of the first match, or -1.
\<close>

fun modify_first :: "('a \<Rightarrow> bool) \<Rightarrow> ('a \<Rightarrow> 'a) \<Rightarrow> 'a list \<Rightarrow> 'a list" where
  "modify_first P f [] = []"
| "modify_first P f (x # xs) = (if P x then f x # xs else x # modify_first P f xs)"

fun findIndex :: "('a \<Rightarrow> bool) \<Rightarrow> 'a list \<Rightarrow> int" where
  "findIndex P [] = - 1"
| "findIndex P (x # xs) =
     (if P x then 0 else (let r = findIndex P xs in if r = - 1 then - 1 else r + 1))"

section \<open>The operations of \<^verbatim>\<open>DB\<close>\<close>

text \<open>
  An operation that returns a value is a function from the storage to the value and the
  storage after the call; an operation that returns nothing is a function from the
  storage to the storage after the call.
\<close>

subsection \<open>Users\<close>

definition getUsers :: "LocalStorage \<Rightarrow> User list \<times> LocalStorage" where
  "getUsers ls = (users (getInitialState ls), ls)"

definition addUser :: "User \<Rightarrow> LocalStorage \<Rightarrow> LocalStorage" where
  "addUser user ls =
     (let state = getInitialState ls in
      saveState (state\<lparr>users := users state @ [user]\<rparr>) ls)"

record VerifyResult =
  vr_success :: bool
  vr_error :: "string option"

definition verifyUser :: "string \<Rightarrow> VerifyResult" where
  "verifyUser token =
     (if token \<noteq> [] \<and> length token > 0 then \<lparr>vr_success = True, vr_error = None\<rparr>
      else \<lparr>vr_success = False, vr_error = Some ''Invalid or expired verification token''\<rparr>)"

definition updateUserCredits :: "string \<Rightarrow> int \<Rightarrow> LocalStorage \<Rightarrow> LocalStorage" where
  "updateUserCredits userId amount ls =
     (let state = getInitialState ls in
      case find (\<lambda>u. user_id u = userId) (users state) of
        Some user \<Rightarrow>
          saveState (state\<lparr>users := modify_first (\<lambda>u. user_id u = userId)
                       (\<lambda>u. u\<lparr>user_credits := user_credits u + amount\<rparr>) (users state)\<rparr>) ls
      | None \<Rightarrow> saveState state ls)"

subsection \<open>Items\<close>

definition getItems :: "LocalStorage \<Rightarrow> Item list \<times> LocalStorage" where
  "getItems ls = (items (getInitialState ls), ls)"

definition addItem :: "Item \<Rightarrow> LocalStorage \<Rightarrow> LocalStorage" where
  "addItem item ls =
     (let state = getInitialState ls in
      saveState (state\<lparr>items := items state @ [item]\<rparr>) ls)"

definition updateItem :: "Item \<Rightarrow> LocalStorage \<Rightarrow> bool \<times> LocalStorage" where
  "updateItem item ls =
     (let state = getInitialState ls;
          index = findIndex (\<lambda>i. item_id i = item_id item) (items state) in
      if index \<noteq> - 1
      then (True, saveState (state\<lparr>items := (items state)[nat index := item]\<rparr>) ls)
      else (False, ls))"

definition deleteItem :: "string \<Rightarrow> LocalStorage \<Rightarrow> LocalStorage" where
  "deleteItem itemId ls =
     (let state = getInitialState ls in
      saveState (state\<lparr>items := filter (\<lambda>i. item_id i \<noteq> itemId) (items state)\<rparr>) ls)"

subsection \<open>Purchases\<close>

definition getPurchases :: "LocalStorage \<Rightarrow> Purchase list \<times> LocalStorage" where
  "getPurchases ls = (purchases (getInitialState ls), ls)"

definition addPurchase :: "Purchase \<Rightarrow> LocalStorage \<Rightarrow> LocalStorage" where
  "addPurchase purchase ls =
     (let state = getInitialState ls in
      saveState (state\<lparr>purchases := purchases state @ [purchase]\<rparr>) ls)"

record PurchaseResult =
  pr_success :: bool
  pr_content :: "string option"
  pr_error :: "string option"

definition purchase_failure :: "string \<Rightarrow> PurchaseResult" where
  "purchase_failure e = \<lparr>pr_success = False, pr_content = None, pr_error = Some e\<rparr>"

text \<open>
  Lines 108 to 120 of \<^verbatim>\<open>processPurchase\<close>: the debit, the Purchase record, the write.
  \<open>state\<close> is the working copy after the delivery branch. \<open>rnd\<close> stands for
  \<^verbatim>\<open>Math.random().toString(36).substring(7)\<close> and \<open>now\<close> for \<^verbatim>\<open>Date.now()\<close>: the two
  values the environment supplies to the call.
\<close>

definition complete_purchase ::
  "string \<Rightarrow> int \<Rightarrow> string \<Rightarrow> string \<Rightarrow> Item \<Rightarrow> string \<Rightarrow> DBState \<Rightarrow> LocalStorage
     \<Rightarrow> PurchaseResult \<times> LocalStorage" where
  "complete_purchase rnd now userId itemId item content state ls =
     (let state1 = state\<lparr>users := modify_first (\<lambda>u. user_id u = userId)
                      (\<lambda>u. u\<lparr>user_credits := user_credits u - item_price item\<rparr>) (users state)\<rparr>;
          purchase = \<lparr>purchase_id = rnd, purchase_userId = userId, purchase_itemId = itemId,
                      purchase_itemName = item_name item, purchase_contentDelivered = content,
                      purchase_timestamp = now, purchase_price = item_price item\<rparr>;
          state2 = state1\<lparr>purchases := purchases state1 @ [purchase]\<rparr>
      in (\<lparr>pr_success = True, pr_content = Some content, pr_error = None\<rparr>,
          saveState state2 ls))"

text \<open>
  Line 101, \<^verbatim>\<open>item.sequentialItems?.find(si => !si.isDelivered)\<close>: the first unit not yet
  delivered, none when the list is missing or every unit is delivered.
\<close>

definition available_unit :: "Item \<Rightarrow> SequentialItem option" where
  "available_unit item =
     (case item_sequentialItems item of
        Some sis \<Rightarrow> find (\<lambda>si. \<not> si_isDelivered si) sis
      | None \<Rightarrow> None)"

text \<open>
  Lines 104 and 105: the assignments \<^verbatim>\<open>available.isDelivered = true\<close> and
  \<^verbatim>\<open>item.deliveredCount++\<close>, as the change they make to the item that holds the unit.
\<close>

definition deliver_unit :: "Item \<Rightarrow> Item" where
  "deliver_unit item =
     item\<lparr>item_sequentialItems :=
            map_option (modify_first (\<lambda>si. \<not> si_isDelivered si) (\<lambda>si. si\<lparr>si_isDelivered := True\<rparr>))
              (item_sequentialItems item),
          item_deliveredCount := item_deliveredCount item + 1\<rparr>"

definition processPurchase ::
  "string \<Rightarrow> int \<Rightarrow> string \<Rightarrow> string \<Rightarrow> LocalStorage \<Rightarrow> PurchaseResult \<times> LocalStorage" where
  "processPurchase rnd now userId itemId ls =
     (let state = getInitialState ls in
      case (find (\<lambda>u. user_id u = userId) (users state),
            find (\<lambda>i. item_id i = itemId) (items state)) of
        (Some user, Some item) \<Rightarrow>
          if user_credits user < item_price item
          then (purchase_failure ''Insufficient credits'', ls)
          else if item_type item = INSTANT
          then complete_purchase rnd now userId itemId item
                 (case item_content item of Some c \<Rightarrow> c | None \<Rightarrow> []) state ls
          else (case available_unit item of
                  None \<Rightarrow> (purchase_failure ''Out of stock'', ls)
                | Some available \<Rightarrow>
                    complete_purchase rnd now userId itemId (deliver_unit item)
                      (si_content available)
                      (state\<lparr>items := modify_first (\<lambda>i. item_id i = itemId) deliver_unit
                                        (items state)\<rparr>) ls)
      | _ \<Rightarrow> (purchase_failure ''User or Item not found'', ls))"

subsection \<open>Transactions\<close>

definition getTransactions :: "LocalStorage \<Rightarrow> Transaction list \<times> LocalStorage" where
  "getTransactions ls = (transactions (getInitialState ls), ls)"

definition addTransaction :: "Transaction \<Rightarrow> LocalStorage \<Rightarrow> LocalStorage" where
  "addTransaction transaction ls =
     (let state = getInitialState ls in
      saveState (state\<lparr>transactions := transactions state @ [transaction]\<rparr>) ls)"

definition updateTransactionStatus :: "string \<Rightarrow> TransactionStatus \<Rightarrow> LocalStorage \<Rightarrow> LocalStorage" where
  "updateTransactionStatus tid status ls =
     (let state = getInitialState ls in
      case find (\<lambda>t. tx_id t = tid) (transactions state) of
        Some tx \<Rightarrow>
          (let state1 = state\<lparr>transactions := modify_first (\<lambda>t. tx_id t = tid)
                           (\<lambda>t. t\<lparr>tx_status := status\<rparr>) (transactions state)\<rparr> in
           if status = APPROVED
           then (case find (\<lambda>u. user_id u = tx_userId tx) (users state1) of
                   Some user \<Rightarrow>
                     saveState (state1\<lparr>users := modify_first (\<lambda>u. user_id u = tx_userId tx)
                                  (\<lambda>u. u\<lparr>user_credits := user_credits u + tx_amount tx\<rparr>)
                                  (users state1)\<rparr>) ls
                 | None \<Rightarrow> saveState state1 ls)
           else saveState state1 ls)
      | None \<Rightarrow> saveState state ls)"

subsection \<open>Redeem codes\<close>

definition getRedeemCodes :: "LocalStorage \<Rightarrow> RedeemCode list \<times> LocalStorage" where
  "getRedeemCodes ls = (redeemCodes (getInitialState ls), ls)"

definition addRedeemCode :: "RedeemCode \<Rightarrow> LocalStorage \<Rightarrow> LocalStorage" where
  "addRedeemCode code ls =
     (let state = getInitialState ls in
      saveState (state\<lparr>redeemCodes := redeemCodes state @ [code]\<rparr>) ls)"

record RedeemResult =
  rr_success :: bool
  rr_amount :: "int option"
  rr_error :: "string option"

definition redeem :: "string \<Rightarrow> string \<Rightarrow> LocalStorage \<Rightarrow> RedeemResult \<times> LocalStorage" where
  "redeem userId codeStr ls =
     (let state = getInitialState ls in
      case find (\<lambda>u. user_id u = userId) (users state) of
        None \<Rightarrow> (\<lparr>rr_success = False, rr_amount = None, rr_error = Some ''User not found''\<rparr>, ls)
      | Some user \<Rightarrow>
          (case find (\<lambda>c. rc_code c = codeStr \<and> \<not> rc_isUsed c) (redeemCodes state) of
             None \<Rightarrow> (\<lparr>rr_success = False, rr_amount = None,
                       rr_error = Some ''Invalid or already used code''\<rparr>, ls)
           | Some code \<Rightarrow>
               (\<lparr>rr_success = True, rr_amount = Some (rc_amount code), rr_error = None\<rparr>,
                saveState
                  (state\<lparr>redeemCodes := modify_first (\<lambda>c. rc_code c = codeStr \<and> \<not> rc_isUsed c)
                            (\<lambda>c. c\<lparr>rc_isUsed := True\<rparr>) (redeemCodes state),
                         users := modify_first (\<lambda>u. user_id u = userId)
                            (\<lambda>u. u\<lparr>user_credits := user_credits u + rc_amount code\<rparr>)
                            (users state)\<rparr>) ls)))"

subsection \<open>Tickets\<close>

definition getTickets :: "LocalStorage \<Rightarrow> Ticket list \<times> LocalStorage" where
  "getTickets ls = (tickets (getInitialState ls), ls)"

definition createTicket :: "Ticket \<Rightarrow> LocalStorage \<Rightarrow> LocalStorage" where
  "createTicket ticket ls =
     (let state = getInitialState ls in
      saveState (state\<lparr>tickets := tickets state @ [ticket]\<rparr>) ls)"

definition addTicketMessage :: "int \<Rightarrow> string \<Rightarrow> TicketMessage \<Rightarrow> LocalStorage \<Rightarrow> LocalStorage" where
  "addTicketMessage now ticketId message ls =
     (let state = getInitialState ls in
      case find (\<lambda>t. ticket_id t = ticketId) (tickets state) of
        Some ticket \<Rightarrow>
          saveState (state\<lparr>tickets := modify_first (\<lambda>t. ticket_id t = ticketId)
                       (\<lambda>t. t\<lparr>ticket_messages := ticket_messages t @ [message],
                               ticket_lastUpdated := now\<rparr>) (tickets state)\<rparr>) ls
      | None \<Rightarrow> saveState state ls)"

definition closeTicket :: "int \<Rightarrow> string \<Rightarrow> LocalStorage \<Rightarrow> LocalStorage" where
  "closeTicket now ticketId ls =
     (let state = getInitialState ls in
      case find (\<lambda>t. ticket_id t = ticketId) (tickets state) of
        Some ticket \<Rightarrow>
          saveState (state\<lparr>tickets := modify_first (\<lambda>t. ticket_id t = ticketId)
                       (\<lambda>t. t\<lparr>ticket_status := CLOSED, ticket_lastUpdated := now\<rparr>)
                       (tickets state)\<rparr>) ls
      | None \<Rightarrow> saveState state ls)"

section \<open>Sequences of calls\<close>

text \<open>
  A caller's call of one operation of \<^verbatim>\<open>DB\<close>, with its arguments and with the values the
  environment supplies to it (\<open>rnd\<close> and \<open>now\<close>, see \<open>complete_purchase\<close>), and the storage
  after that call. The value a call returns is dropped here.
\<close>

datatype Call =
    GetUsers
  | AddUser User
  | VerifyUser string
  | UpdateUserCredits string int
  | GetItems
  | AddItem Item
  | UpdateItem Item
  | DeleteItem string
  | GetPurchases
  | AddPurchase Purchase
  | ProcessPurchase string int string string
  | GetTransactions
  | AddTransaction Transaction
  | UpdateTransactionStatus string TransactionStatus
  | GetRedeemCodes
  | AddRedeemCode RedeemCode
  | Redeem string string
  | GetTickets
  | CreateTicket Ticket
  | AddTicketMessage int string TicketMessage
  | CloseTicket int string

fun call :: "Call \<Rightarrow> LocalStorage \<Rightarrow> LocalStorage" where
  "call GetUsers ls = snd (getUsers ls)"
| "call (AddUser user) ls = addUser user ls"
| "call (VerifyUser token) ls = ls"
| "call (UpdateUserCredits userId amount) ls = updateUserCredits userId amount ls"
| "call GetItems ls = snd (getItems ls)"
| "call (AddItem item) ls = addItem item ls"
| "call (UpdateItem item) ls = snd (updateItem item ls)"
| "call (DeleteItem itemId) ls = deleteItem itemId ls"
| "call GetPurchases ls = snd (getPurchases ls)"
| "call (AddPurchase purchase) ls = addPurchase purchase ls"
| "call (ProcessPurchase rnd now userId itemId) ls = snd (processPurchase rnd now userId itemId ls)"
| "call GetTransactions ls = snd (getTransactions ls)"
| "call (AddTransaction transaction) ls = addTransaction transaction ls"
| "call (UpdateTransactionStatus tid status) ls = updateTransactionStatus tid status ls"
| "call GetRedeemCodes ls = snd (getRedeemCodes ls)"
| "call (AddRedeemCode code) ls = addRedeemCode code ls"
| "call (Redeem userId codeStr) ls = snd (redeem userId codeStr ls)"
| "call GetTickets ls = snd (getTickets ls)"
| "call (CreateTicket ticket) ls = createTicket ticket ls"
| "call (AddTicketMessage now ticketId message) ls = addTicketMessage now ticketId message ls"
| "call (CloseTicket now ticketId) ls = closeTicket now ticketId ls"

fun calls :: "Call list \<Rightarrow> LocalStorage \<Rightarrow> LocalStorage" where
  "calls [] ls = ls"
| "calls (c # cs) ls = calls cs (call c ls)"

text \<open>
  Repeated calls of \<^verbatim>\<open>processPurchase\<close> with the same user and item, one call for each
  pair \<open>(rnd, now)\<close> the environment supplies; the results in call order and the storage
  after the last call.
\<close>

fun purchase_run ::
  "(string \<times> int) list \<Rightarrow> string \<Rightarrow> string \<Rightarrow> LocalStorage \<Rightarrow> PurchaseResult list \<times> LocalStorage" where
  "purchase_run [] userId itemId ls = ([], ls)"
| "purchase_run ((rnd, now) # env) userId itemId ls =
     (case processPurchase rnd now userId itemId ls of
        (r, ls1) \<Rightarrow> (case purchase_run env userId itemId ls1 of (rs, ls2) \<Rightarrow> (r # rs, ls2)))"

text \<open>Sequences of \<^verbatim>\<open>addItem\<close> and \<^verbatim>\<open>deleteItem\<close> calls only.\<close>

datatype ItemCall = Add Item | Delete string

fun item_call :: "ItemCall \<Rightarrow> LocalStorage \<Rightarrow> LocalStorage" where
  "item_call (Add item) ls = addItem item ls"
| "item_call (Delete itemId) ls = deleteItem itemId ls"

fun item_calls :: "ItemCall list \<Rightarrow> LocalStorage \<Rightarrow> LocalStorage" where
  "item_calls [] ls = ls"
| "item_calls (c # cs) ls = item_calls cs (item_call c ls)"

text \<open>
  The spec's reading of such a sequence, written from its words and not from the code:
  "the net set of additions minus deletions, in original insertion order for survivors".
  An item survives when no later call deletes its id; the items present at the start
  come first, then the added items in the order of their calls.
\<close>

fun spec_added_survivors :: "ItemCall list \<Rightarrow> Item list" where
  "spec_added_survivors [] = []"
| "spec_added_survivors (Add item # cs) =
     (if Delete (item_id item) \<in> set cs then spec_added_survivors cs
      else item # spec_added_survivors cs)"
| "spec_added_survivors (Delete itemId # cs) = spec_added_survivors cs"

definition spec_net_items :: "Item list \<Rightarrow> ItemCall list \<Rightarrow> Item list" where
  "spec_net_items initial cs =
     filter (\<lambda>item. Delete (item_id item) \<notin> set cs) initial @ spec_added_survivors cs"

section \<open>Example data\<close>

definition empty_storage :: LocalStorage where
  "empty_storage = \<lparr>ebon_shop_db = None, setItem_calls = 0\<rparr>"

definition alice :: User where
  "alice = \<lparr>user_id = ''U'', user_role = USER, user_credits = 100\<rparr>"

definition instant_item :: Item where
  "instant_item = \<lparr>item_id = ''I'', item_name = ''Gift card'', item_price = 30,
     item_type = INSTANT, item_content = Some ''CODE123'', item_sequentialItems = None,
     item_deliveredCount = 0\<rparr>"

definition key_item :: Item where
  "key_item = \<lparr>item_id = ''K'', item_name = ''Licence key'', item_price = 30,
     item_type = SEQUENTIAL, item_content = None,
     item_sequentialItems = Some [\<lparr>si_content = ''KEY-1'', si_isDelivered = False\<rparr>,
                                  \<lparr>si_content = ''KEY-2'', si_isDelivered = False\<rparr>],
     item_deliveredCount = 0\<rparr>"

definition sold_out_item :: Item where
  "sold_out_item = \<lparr>item_id = ''S'', item_name = ''Sold out key'', item_price = 5,
     item_type = SEQUENTIAL, item_content = None,
     item_sequentialItems = Some [\<lparr>si_content = ''OLD-1'', si_isDelivered = True\<rparr>],
     item_deliveredCount = 1\<rparr>"

definition topup :: Transaction where
  "topup = \<lparr>tx_id = ''T'', tx_userId = ''U'', tx_amount = 50, tx_status = PENDING\<rparr>"

definition orphan_topup :: Transaction where
  "orphan_topup = \<lparr>tx_id = ''X'', tx_userId = ''nobody'', tx_amount = 7, tx_status = PENDING\<rparr>"

definition used_code :: RedeemCode where
  "used_code = \<lparr>rc_code = ''WELCOME10'', rc_amount = 10, rc_isUsed = True\<rparr>"

definition fresh_code :: RedeemCode where
  "fresh_code = \<lparr>rc_code = ''SPRING5'', rc_amount = 5, rc_isUsed = False\<rparr>"

definition shop_state :: DBState where
  "shop_state = \<lparr>users = [alice], items = [instant_item, key_item, sold_out_item],
     purchases = [], transactions = [topup, orphan_topup],
     redeemCodes = [used_code, fresh_code], tickets = []\<rparr>"

definition shop :: LocalStorage where
  "shop = \<lparr>ebon_shop_db = Some shop_state, setItem_calls = 0\<rparr>"




section \<open>Facts about the array helpers\<close>

lemma findIndex_ge: "- 1 \<le> findIndex P xs"
  by (induction xs) (auto simp: Let_def)

lemma findIndex_none_iff: "findIndex P xs = - 1 \<longleftrightarrow> (\<forall>x\<in>set xs. \<not> P x)"
proof (induction xs)
  case Nil
  show ?case by simp
next
  case (Cons x xs)
  have "- 1 \<le> findIndex P xs" by (rule findIndex_ge)
  with Cons show ?case by (auto simp: Let_def)
qed

lemma findIndex_found:
  "findIndex P xs \<noteq> - 1 \<Longrightarrow>
     nat (findIndex P xs) < length xs \<and> P (xs ! nat (findIndex P xs)) \<and>
     (\<forall>j<nat (findIndex P xs). \<not> P (xs ! j))"
proof (induction xs)
  case Nil
  then show ?case by simp
next
  case (Cons x xs)
  show ?case
  proof (cases "P x")
    case True
    then show ?thesis by simp
  next
    case False
    with Cons.prems have ne: "findIndex P xs \<noteq> - 1" by (auto simp: Let_def split: if_splits)
    have ge: "0 \<le> findIndex P xs" using ne findIndex_ge [of P xs] by linarith
    have eq: "findIndex P (x # xs) = findIndex P xs + 1" using False ne by (simp add: Let_def)
    have n: "nat (findIndex P xs + 1) = Suc (nat (findIndex P xs))" using ge by simp
    from Cons.IH [OF ne] False show ?thesis
      unfolding eq n by (auto simp: nth_Cons split: nat.splits)
  qed
qed

lemma find_None_findIndex: "find P xs = None \<longleftrightarrow> findIndex P xs = - 1"
  by (auto simp: find_None_iff findIndex_none_iff)

lemma find_Some_findIndex:
  assumes "find P xs = Some x"
  shows "findIndex P xs \<noteq> - 1" and "nat (findIndex P xs) < length xs"
    and "xs ! nat (findIndex P xs) = x" and "P x"
proof -
  show ne: "findIndex P xs \<noteq> - 1" using assms find_None_findIndex [of P xs] by simp
  from findIndex_found [OF ne] show "nat (findIndex P xs) < length xs" by simp
  from assms obtain i where i: "i < length xs" "P (xs ! i)" "x = xs ! i" "\<forall>j<i. \<not> P (xs ! j)"
    by (auto simp: find_Some_iff)
  let ?k = "nat (findIndex P xs)"
  from findIndex_found [OF ne] have k: "?k < length xs" "P (xs ! ?k)" "\<forall>j<?k. \<not> P (xs ! j)"
    by simp_all
  have "\<not> i < ?k" using k(3) i(2) by blast
  moreover have "\<not> ?k < i" using i(4) k(2) by blast
  ultimately have "i = ?k" by simp
  with i show "xs ! ?k = x" and "P x" by simp_all
qed

lemma length_modify_first [simp]: "length (modify_first P f xs) = length xs"
  by (induction xs) auto

lemma modify_first_None: "find P xs = None \<Longrightarrow> modify_first P f xs = xs"
  by (induction xs) (auto split: if_splits)

lemma modify_first_list_update:
  "find P xs = Some x \<Longrightarrow> modify_first P f xs = xs[nat (findIndex P xs) := f x]"
proof (induction xs)
  case Nil
  then show ?case by simp
next
  case (Cons y ys)
  show ?case
  proof (cases "P y")
    case True
    with Cons.prems show ?thesis by simp
  next
    case False
    with Cons.prems have f: "find P ys = Some x" by simp
    have ne: "findIndex P ys \<noteq> - 1" by (rule find_Some_findIndex(1) [OF f])
    have ge: "0 \<le> findIndex P ys" using ne findIndex_ge [of P ys] by linarith
    have n: "nat (findIndex P ys + 1) = Suc (nat (findIndex P ys))" using ge by simp
    show ?thesis using False ne Cons.IH [OF f] by (simp add: Let_def n)
  qed
qed

lemma find_modify_first:
  "(\<And>x. P x \<Longrightarrow> P (f x)) \<Longrightarrow> find P (modify_first P f xs) = map_option f (find P xs)"
  by (induction xs) auto

lemma find_append_skip: "\<forall>x\<in>set pre. \<not> P x \<Longrightarrow> find P (pre @ xs) = find P xs"
  by (induction pre) auto

lemma modify_first_append_skip:
  "\<forall>x\<in>set pre. \<not> P x \<Longrightarrow> modify_first P f (pre @ xs) = pre @ modify_first P f xs"
  by (induction pre) auto

section \<open>Facts about the storage\<close>

lemma getInitialState_saveState [simp]: "getInitialState (saveState state ls) = state"
  by (simp add: getInitialState_def saveState_def)

lemma setItem_calls_saveState [simp]: "setItem_calls (saveState state ls) = Suc (setItem_calls ls)"
  by (simp add: saveState_def)

lemma ebon_shop_db_saveState [simp]: "ebon_shop_db (saveState state ls) = Some state"
  by (simp add: saveState_def)

lemma getInitialState_shop [simp]: "getInitialState shop = shop_state"
  by (simp add: getInitialState_def shop_def)

section \<open>Claims\<close>

text \<open>
  C6. \<^verbatim>\<open>updateItem(item)\<close> returns true if and only if some stored item has the id of
  \<open>item\<close>. When it returns true, the first stored item with that id (position \<open>k\<close>) is
  replaced by \<open>item\<close> at the same position, every other item and every other collection is
  as before, and the document is written once. When it returns false, the storage is
  exactly as before: no call of \<^verbatim>\<open>setItem\<close>.
\<close>

theorem updateItem_replaces_in_place:
  "(fst (updateItem item ls) \<longleftrightarrow> (\<exists>i\<in>set (items (getInitialState ls)). item_id i = item_id item)) \<and>
   (fst (updateItem item ls) \<longrightarrow>
      (\<exists>k<length (items (getInitialState ls)).
          item_id (items (getInitialState ls) ! k) = item_id item \<and>
          (\<forall>j<k. item_id (items (getInitialState ls) ! j) \<noteq> item_id item) \<and>
          snd (updateItem item ls) =
            ls\<lparr>ebon_shop_db := Some ((getInitialState ls)\<lparr>items := (items (getInitialState ls))[k := item]\<rparr>),
               setItem_calls := Suc (setItem_calls ls)\<rparr>)) \<and>
   (\<not> fst (updateItem item ls) \<longrightarrow> snd (updateItem item ls) = ls)"
proof -
  let ?its = "items (getInitialState ls)"
  let ?P = "\<lambda>i. item_id i = item_id item"
  have a: "fst (updateItem item ls) \<longleftrightarrow> findIndex ?P ?its \<noteq> - 1"
    by (simp add: updateItem_def Let_def)
  have b: "findIndex ?P ?its \<noteq> - 1 \<longleftrightarrow> (\<exists>i\<in>set ?its. ?P i)"
    by (simp add: findIndex_none_iff)
  have c: "\<not> fst (updateItem item ls) \<longrightarrow> snd (updateItem item ls) = ls"
    by (simp add: updateItem_def Let_def)
  have d: "fst (updateItem item ls) \<longrightarrow>
      (\<exists>k<length ?its. ?P (?its ! k) \<and> (\<forall>j<k. \<not> ?P (?its ! j)) \<and>
          snd (updateItem item ls) =
            ls\<lparr>ebon_shop_db := Some ((getInitialState ls)\<lparr>items := ?its[k := item]\<rparr>),
               setItem_calls := Suc (setItem_calls ls)\<rparr>)"
  proof
    assume "fst (updateItem item ls)"
    then have ne: "findIndex ?P ?its \<noteq> - 1" using a by simp
    have s: "snd (updateItem item ls) =
            ls\<lparr>ebon_shop_db := Some ((getInitialState ls)\<lparr>items := ?its[nat (findIndex ?P ?its) := item]\<rparr>),
               setItem_calls := Suc (setItem_calls ls)\<rparr>"
      using ne by (simp add: updateItem_def Let_def saveState_def)
    from findIndex_found [OF ne] s show "\<exists>k<length ?its. ?P (?its ! k) \<and> (\<forall>j<k. \<not> ?P (?its ! j)) \<and>
          snd (updateItem item ls) =
            ls\<lparr>ebon_shop_db := Some ((getInitialState ls)\<lparr>items := ?its[k := item]\<rparr>),
               setItem_calls := Suc (setItem_calls ls)\<rparr>"
      by blast
  qed
  from a b c d show ?thesis by blast
qed

theorem updateItem_replaces_in_place_witness:
  "fst (updateItem (key_item\<lparr>item_price := 45\<rparr>) shop) \<and>
   items (getInitialState (snd (updateItem (key_item\<lparr>item_price := 45\<rparr>) shop))) =
     [instant_item, key_item\<lparr>item_price := 45\<rparr>, sold_out_item] \<and>
   \<not> fst (updateItem (key_item\<lparr>item_id := ''Z''\<rparr>) shop) \<and>
   snd (updateItem (key_item\<lparr>item_id := ''Z''\<rparr>) shop) = shop"
proof -
  have f: "fst (updateItem (key_item\<lparr>item_price := 45\<rparr>) shop)"
    using updateItem_replaces_in_place [of "key_item\<lparr>item_price := 45\<rparr>" shop]
    by (simp add: shop_state_def key_item_def)
  have n: "\<not> fst (updateItem (key_item\<lparr>item_id := ''Z''\<rparr>) shop)"
    using updateItem_replaces_in_place [of "key_item\<lparr>item_id := ''Z''\<rparr>" shop]
    by (simp add: shop_state_def key_item_def instant_item_def sold_out_item_def)
  have u: "snd (updateItem (key_item\<lparr>item_id := ''Z''\<rparr>) shop) = shop"
    using updateItem_replaces_in_place [of "key_item\<lparr>item_id := ''Z''\<rparr>" shop] n by blast
  have i: "items (getInitialState (snd (updateItem (key_item\<lparr>item_price := 45\<rparr>) shop))) =
     [instant_item, key_item\<lparr>item_price := 45\<rparr>, sold_out_item]"
    by (simp add: updateItem_def Let_def shop_state_def key_item_def instant_item_def sold_out_item_def)
  from f n u i show ?thesis by blast
qed

text \<open>
  C8. While the key is absent, each of the six read operations returns the empty sequence
  and leaves the storage as it is (the key stays absent, no call of \<^verbatim>\<open>setItem\<close>); the
  document is first written by a mutating call, shown here for \<^verbatim>\<open>addUser\<close> and
  \<^verbatim>\<open>addItem\<close>, which write the default document with the one new record.
\<close>

theorem absent_key_reads_empty_without_write:
  "ebon_shop_db ls = None \<Longrightarrow>
     getUsers ls = ([], ls) \<and> getItems ls = ([], ls) \<and> getPurchases ls = ([], ls) \<and>
     getTransactions ls = ([], ls) \<and> getRedeemCodes ls = ([], ls) \<and> getTickets ls = ([], ls) \<and>
     addUser user ls =
       \<lparr>ebon_shop_db = Some \<lparr>users = [user], items = [], purchases = [], transactions = [],
                              redeemCodes = [], tickets = []\<rparr>,
        setItem_calls = Suc (setItem_calls ls)\<rparr> \<and>
     addItem item ls =
       \<lparr>ebon_shop_db = Some \<lparr>users = [], items = [item], purchases = [], transactions = [],
                              redeemCodes = [], tickets = []\<rparr>,
        setItem_calls = Suc (setItem_calls ls)\<rparr>"
  by (simp add: getUsers_def getItems_def getPurchases_def getTransactions_def
      getRedeemCodes_def getTickets_def getInitialState_def addUser_def addItem_def saveState_def)

theorem absent_key_reads_empty_without_write_witness:
  "ebon_shop_db empty_storage = None \<and>
   getUsers empty_storage = ([], empty_storage) \<and> getTickets empty_storage = ([], empty_storage) \<and>
   setItem_calls (snd (getItems empty_storage)) = 0 \<and>
   setItem_calls (addUser alice empty_storage) = 1"
proof -
  have h: "ebon_shop_db empty_storage = None" by (simp add: empty_storage_def)
  show ?thesis
    using h absent_key_reads_empty_without_write [OF h, of alice instant_item]
    by (simp add: empty_storage_def)
qed







text \<open>
  C9. If \<^verbatim>\<open>updateTransactionStatus(id, APPROVED)\<close> finds the transaction \<open>tx\<close> under
  \<open>id\<close> and no stored user has the id \<open>tx.userId\<close>, then the document is written once,
  with the status of \<open>tx\<close> set to APPROVED at its position and nothing else changed: in
  particular the users are as before. The operation returns no value, so the model's
  result is the storage alone: the caller is told of no error.
\<close>

theorem approve_without_user_skips_credit:
  assumes tx: "find (\<lambda>t. tx_id t = tid) (transactions (getInitialState ls)) = Some tx"
    and u: "find (\<lambda>u. user_id u = tx_userId tx) (users (getInitialState ls)) = None"
  shows "updateTransactionStatus tid APPROVED ls =
           ls\<lparr>ebon_shop_db := Some ((getInitialState ls)
                 \<lparr>transactions := (transactions (getInitialState ls))
                    [nat (findIndex (\<lambda>t. tx_id t = tid) (transactions (getInitialState ls))) :=
                       tx\<lparr>tx_status := APPROVED\<rparr>]\<rparr>),
              setItem_calls := Suc (setItem_calls ls)\<rparr> \<and>
         users (getInitialState (updateTransactionStatus tid APPROVED ls)) =
           users (getInitialState ls)"
proof -
  have "updateTransactionStatus tid APPROVED ls =
          saveState ((getInitialState ls)\<lparr>transactions := modify_first (\<lambda>t. tx_id t = tid)
             (\<lambda>t. t\<lparr>tx_status := APPROVED\<rparr>) (transactions (getInitialState ls))\<rparr>) ls"
    using tx u by (simp add: updateTransactionStatus_def Let_def)
  then have eq: "updateTransactionStatus tid APPROVED ls =
          saveState ((getInitialState ls)\<lparr>transactions := (transactions (getInitialState ls))
             [nat (findIndex (\<lambda>t. tx_id t = tid) (transactions (getInitialState ls))) :=
                tx\<lparr>tx_status := APPROVED\<rparr>]\<rparr>) ls"
    by (simp add: modify_first_list_update [OF tx])
  have "users (getInitialState (updateTransactionStatus tid APPROVED ls)) =
      users (getInitialState ls)"
    unfolding eq by simp
  moreover have "updateTransactionStatus tid APPROVED ls =
           ls\<lparr>ebon_shop_db := Some ((getInitialState ls)
                 \<lparr>transactions := (transactions (getInitialState ls))
                    [nat (findIndex (\<lambda>t. tx_id t = tid) (transactions (getInitialState ls))) :=
                       tx\<lparr>tx_status := APPROVED\<rparr>]\<rparr>),
              setItem_calls := Suc (setItem_calls ls)\<rparr>"
    unfolding eq by (simp add: saveState_def)
  ultimately show ?thesis by blast
qed

theorem approve_without_user_skips_credit_witness:
  "find (\<lambda>t. tx_id t = ''X'') (transactions (getInitialState shop)) = Some orphan_topup \<and>
   find (\<lambda>u. user_id u = tx_userId orphan_topup) (users (getInitialState shop)) = None \<and>
   transactions (getInitialState (updateTransactionStatus ''X'' APPROVED shop)) =
     [topup, orphan_topup\<lparr>tx_status := APPROVED\<rparr>] \<and>
   users (getInitialState (updateTransactionStatus ''X'' APPROVED shop)) = [alice] \<and>
   setItem_calls (updateTransactionStatus ''X'' APPROVED shop) = 1"
proof -
  have tx: "find (\<lambda>t. tx_id t = ''X'') (transactions (getInitialState shop)) = Some orphan_topup"
    by (simp add: shop_state_def topup_def orphan_topup_def)
  have u: "find (\<lambda>u. user_id u = tx_userId orphan_topup) (users (getInitialState shop)) = None"
    by (simp add: shop_state_def orphan_topup_def alice_def)
  note r = approve_without_user_skips_credit [OF tx u]
  have eq: "updateTransactionStatus ''X'' APPROVED shop =
      shop\<lparr>ebon_shop_db := Some (shop_state\<lparr>transactions := [topup, orphan_topup\<lparr>tx_status := APPROVED\<rparr>]\<rparr>),
           setItem_calls := Suc (setItem_calls shop)\<rparr>"
    using r [THEN conjunct1] by (simp add: shop_state_def topup_def orphan_topup_def)
  have t: "transactions (getInitialState (updateTransactionStatus ''X'' APPROVED shop)) =
     [topup, orphan_topup\<lparr>tx_status := APPROVED\<rparr>]"
    unfolding eq by (simp add: getInitialState_def)
  have us: "users (getInitialState (updateTransactionStatus ''X'' APPROVED shop)) = [alice]"
    using r [THEN conjunct2] by (simp add: shop_state_def)
  have w: "setItem_calls (updateTransactionStatus ''X'' APPROVED shop) = 1"
    unfolding eq by (simp add: shop_def)
  from tx u t us w show ?thesis by blast
qed

section \<open>The five outcomes of \<^verbatim>\<open>processPurchase\<close>\<close>

lemma deliver_unit_fields [simp]:
  "item_price (deliver_unit item) = item_price item"
  "item_name (deliver_unit item) = item_name item"
  "item_id (deliver_unit item) = item_id item"
  "item_type (deliver_unit item) = item_type item"
  by (simp_all add: deliver_unit_def)

lemma pr_success_failure [simp]: "\<not> pr_success (purchase_failure e)"
  by (simp add: purchase_failure_def)

lemma processPurchase_missing:
  assumes "find (\<lambda>u. user_id u = userId) (users (getInitialState ls)) = None \<or>
           find (\<lambda>i. item_id i = itemId) (items (getInitialState ls)) = None"
  shows "processPurchase rnd now userId itemId ls = (purchase_failure ''User or Item not found'', ls)"
  using assms by (auto simp: processPurchase_def Let_def split: option.splits)

lemma processPurchase_insufficient:
  assumes "find (\<lambda>u. user_id u = userId) (users (getInitialState ls)) = Some user"
    and "find (\<lambda>i. item_id i = itemId) (items (getInitialState ls)) = Some item"
    and "user_credits user < item_price item"
  shows "processPurchase rnd now userId itemId ls = (purchase_failure ''Insufficient credits'', ls)"
  using assms by (simp add: processPurchase_def Let_def)

lemma processPurchase_out_of_stock:
  assumes "find (\<lambda>u. user_id u = userId) (users (getInitialState ls)) = Some user"
    and "find (\<lambda>i. item_id i = itemId) (items (getInitialState ls)) = Some item"
    and "item_price item \<le> user_credits user"
    and "item_type item \<noteq> INSTANT" and "available_unit item = None"
  shows "processPurchase rnd now userId itemId ls = (purchase_failure ''Out of stock'', ls)"
  using assms by (simp add: processPurchase_def Let_def)

lemma processPurchase_instant:
  assumes u: "find (\<lambda>u. user_id u = userId) (users (getInitialState ls)) = Some user"
    and i: "find (\<lambda>i. item_id i = itemId) (items (getInitialState ls)) = Some item"
    and c: "item_price item \<le> user_credits user"
    and t: "item_type item = INSTANT"
  shows "processPurchase rnd now userId itemId ls =
    (\<lparr>pr_success = True,
      pr_content = Some (case item_content item of Some c \<Rightarrow> c | None \<Rightarrow> []),
      pr_error = None\<rparr>,
     saveState ((getInitialState ls)
       \<lparr>users := (users (getInitialState ls))
           [nat (findIndex (\<lambda>u. user_id u = userId) (users (getInitialState ls))) :=
              user\<lparr>user_credits := user_credits user - item_price item\<rparr>],
        purchases := purchases (getInitialState ls) @
           [\<lparr>purchase_id = rnd, purchase_userId = userId, purchase_itemId = itemId,
             purchase_itemName = item_name item,
             purchase_contentDelivered = (case item_content item of Some c \<Rightarrow> c | None \<Rightarrow> []),
             purchase_timestamp = now, purchase_price = item_price item\<rparr>]\<rparr>) ls)"
  using u i c t
  by (simp add: processPurchase_def Let_def complete_purchase_def modify_first_list_update [OF u])

lemma processPurchase_sequential:
  assumes u: "find (\<lambda>u. user_id u = userId) (users (getInitialState ls)) = Some user"
    and i: "find (\<lambda>i. item_id i = itemId) (items (getInitialState ls)) = Some item"
    and c: "item_price item \<le> user_credits user"
    and t: "item_type item \<noteq> INSTANT"
    and a: "available_unit item = Some available"
  shows "processPurchase rnd now userId itemId ls =
    (\<lparr>pr_success = True, pr_content = Some (si_content available), pr_error = None\<rparr>,
     saveState ((getInitialState ls)
       \<lparr>items := (items (getInitialState ls))
           [nat (findIndex (\<lambda>i. item_id i = itemId) (items (getInitialState ls))) :=
              deliver_unit item],
        users := (users (getInitialState ls))
           [nat (findIndex (\<lambda>u. user_id u = userId) (users (getInitialState ls))) :=
              user\<lparr>user_credits := user_credits user - item_price item\<rparr>],
        purchases := purchases (getInitialState ls) @
           [\<lparr>purchase_id = rnd, purchase_userId = userId, purchase_itemId = itemId,
             purchase_itemName = item_name item,
             purchase_contentDelivered = si_content available,
             purchase_timestamp = now, purchase_price = item_price item\<rparr>]\<rparr>) ls)"
  using u i c t a
  by (simp add: processPurchase_def Let_def complete_purchase_def
      modify_first_list_update [OF u] modify_first_list_update [OF i])


lemma processPurchase_failure_cases:
  assumes r: "processPurchase rnd now userId itemId ls = (res, ls')"
    and n: "\<not> (\<exists>user item.
        find (\<lambda>u. user_id u = userId) (users (getInitialState ls)) = Some user \<and>
        find (\<lambda>i. item_id i = itemId) (items (getInitialState ls)) = Some item \<and>
        item_price item \<le> user_credits user \<and>
        (item_type item = INSTANT \<or> available_unit item \<noteq> None))"
  shows "ls' = ls \<and>
     (res = purchase_failure ''User or Item not found'' \<or>
      res = purchase_failure ''Insufficient credits'' \<or>
      res = purchase_failure ''Out of stock'')"
proof (cases "find (\<lambda>u. user_id u = userId) (users (getInitialState ls))")
  case None
  with processPurchase_missing [of userId ls itemId rnd now] r show ?thesis by simp
next
  case u: (Some user)
  show ?thesis
  proof (cases "find (\<lambda>i. item_id i = itemId) (items (getInitialState ls))")
    case None
    with processPurchase_missing [of userId ls itemId rnd now] r show ?thesis by simp
  next
    case i: (Some item)
    show ?thesis
    proof (cases "user_credits user < item_price item")
      case True
      with processPurchase_insufficient [OF u i, of rnd now] r show ?thesis by simp
    next
      case False
      then have c: "item_price item \<le> user_credits user" by simp
      with n u i have "item_type item \<noteq> INSTANT" and "available_unit item = None" by auto
      with processPurchase_out_of_stock [OF u i c, of rnd now] r show ?thesis by simp
    qed
  qed
qed

lemma processPurchase_success_cases:
  assumes r: "processPurchase rnd now userId itemId ls = (res, ls')"
    and u: "find (\<lambda>u. user_id u = userId) (users (getInitialState ls)) = Some user"
    and i: "find (\<lambda>i. item_id i = itemId) (items (getInitialState ls)) = Some item"
    and c: "item_price item \<le> user_credits user"
    and k: "item_type item = INSTANT \<or> available_unit item \<noteq> None"
  shows "\<exists>content. res = \<lparr>pr_success = True, pr_content = Some content, pr_error = None\<rparr> \<and>
     content = (if item_type item = INSTANT
                then (case item_content item of Some c \<Rightarrow> c | None \<Rightarrow> [])
                else si_content (the (available_unit item))) \<and>
     ls' = saveState ((getInitialState ls)
       \<lparr>items := (if item_type item = INSTANT then items (getInitialState ls)
                  else (items (getInitialState ls))
                    [nat (findIndex (\<lambda>i. item_id i = itemId) (items (getInitialState ls))) :=
                       deliver_unit item]),
        users := (users (getInitialState ls))
           [nat (findIndex (\<lambda>u. user_id u = userId) (users (getInitialState ls))) :=
              user\<lparr>user_credits := user_credits user - item_price item\<rparr>],
        purchases := purchases (getInitialState ls) @
           [\<lparr>purchase_id = rnd, purchase_userId = userId, purchase_itemId = itemId,
             purchase_itemName = item_name item, purchase_contentDelivered = content,
             purchase_timestamp = now, purchase_price = item_price item\<rparr>]\<rparr>) ls"
proof (cases "item_type item = INSTANT")
  case True
  with processPurchase_instant [OF u i c True, of rnd now] r show ?thesis by simp
next
  case False
  with k obtain a where a: "available_unit item = Some a" by auto
  with processPurchase_sequential [OF u i c False a, of rnd now] r False show ?thesis by simp
qed

lemma processPurchase_success_iff:
  assumes r: "processPurchase rnd now userId itemId ls = (res, ls')"
  shows "pr_success res \<longleftrightarrow>
     (\<exists>user item.
        find (\<lambda>u. user_id u = userId) (users (getInitialState ls)) = Some user \<and>
        find (\<lambda>i. item_id i = itemId) (items (getInitialState ls)) = Some item \<and>
        item_price item \<le> user_credits user \<and>
        (item_type item = INSTANT \<or> available_unit item \<noteq> None))"
proof
  assume s: "pr_success res"
  show "\<exists>user item.
        find (\<lambda>u. user_id u = userId) (users (getInitialState ls)) = Some user \<and>
        find (\<lambda>i. item_id i = itemId) (items (getInitialState ls)) = Some item \<and>
        item_price item \<le> user_credits user \<and>
        (item_type item = INSTANT \<or> available_unit item \<noteq> None)"
  proof (rule ccontr)
    assume "\<not> ?thesis"
    from processPurchase_failure_cases [OF r this] s show False by auto
  qed
next
  assume "\<exists>user item.
        find (\<lambda>u. user_id u = userId) (users (getInitialState ls)) = Some user \<and>
        find (\<lambda>i. item_id i = itemId) (items (getInitialState ls)) = Some item \<and>
        item_price item \<le> user_credits user \<and>
        (item_type item = INSTANT \<or> available_unit item \<noteq> None)"
  then obtain user item where
    "find (\<lambda>u. user_id u = userId) (users (getInitialState ls)) = Some user"
    "find (\<lambda>i. item_id i = itemId) (items (getInitialState ls)) = Some item"
    "item_price item \<le> user_credits user"
    "item_type item = INSTANT \<or> available_unit item \<noteq> None" by blast
  from processPurchase_success_cases [OF r this] show "pr_success res" by auto
qed

text \<open>
  C1, as the code has it. \<^verbatim>\<open>processPurchase(userId, itemId)\<close> succeeds, debits the user's
  credits by the item's price, appends one Purchase record and writes the document, if and
  only if the user and the item are found, \<open>user.credits >= item.price\<close>, and the item is
  INSTANT or has a unit that is not yet delivered. The two checks the claim names are not
  enough: a non-INSTANT item with no undelivered unit passes both and the call fails with
  'Out of stock', as the closed example after the theorem shows. On every failure the error
  is one of 'User or Item not found', 'Insufficient credits', 'Out of stock', and the storage is
  exactly as before: credits, stock and purchases unchanged, no call of \<^verbatim>\<open>setItem\<close>.
\<close>

theorem purchase_all_or_nothing:
  assumes r: "processPurchase rnd now userId itemId ls = (res, ls')"
  shows "(pr_success res \<longleftrightarrow>
            (\<exists>user item.
               find (\<lambda>u. user_id u = userId) (users (getInitialState ls)) = Some user \<and>
               find (\<lambda>i. item_id i = itemId) (items (getInitialState ls)) = Some item \<and>
               item_price item \<le> user_credits user \<and>
               (item_type item = INSTANT \<or> available_unit item \<noteq> None))) \<and>
         (pr_success res \<longrightarrow>
            (\<exists>user item content.
               find (\<lambda>u. user_id u = userId) (users (getInitialState ls)) = Some user \<and>
               find (\<lambda>i. item_id i = itemId) (items (getInitialState ls)) = Some item \<and>
               pr_content res = Some content \<and>
               users (getInitialState ls') = (users (getInitialState ls))
                 [nat (findIndex (\<lambda>u. user_id u = userId) (users (getInitialState ls))) :=
                    user\<lparr>user_credits := user_credits user - item_price item\<rparr>] \<and>
               purchases (getInitialState ls') = purchases (getInitialState ls) @
                 [\<lparr>purchase_id = rnd, purchase_userId = userId, purchase_itemId = itemId,
                   purchase_itemName = item_name item, purchase_contentDelivered = content,
                   purchase_timestamp = now, purchase_price = item_price item\<rparr>] \<and>
               setItem_calls ls' = Suc (setItem_calls ls))) \<and>
         (\<not> pr_success res \<longrightarrow>
            ls' = ls \<and>
            (pr_error res = Some ''User or Item not found'' \<or>
             pr_error res = Some ''Insufficient credits'' \<or>
             pr_error res = Some ''Out of stock''))"
proof (intro conjI impI)
  show "pr_success res \<longleftrightarrow>
            (\<exists>user item.
               find (\<lambda>u. user_id u = userId) (users (getInitialState ls)) = Some user \<and>
               find (\<lambda>i. item_id i = itemId) (items (getInitialState ls)) = Some item \<and>
               item_price item \<le> user_credits user \<and>
               (item_type item = INSTANT \<or> available_unit item \<noteq> None))"
    by (rule processPurchase_success_iff [OF r])
next
  assume "pr_success res"
  then obtain user item where f:
    "find (\<lambda>u. user_id u = userId) (users (getInitialState ls)) = Some user"
    "find (\<lambda>i. item_id i = itemId) (items (getInitialState ls)) = Some item"
    "item_price item \<le> user_credits user"
    "item_type item = INSTANT \<or> available_unit item \<noteq> None"
    using processPurchase_success_iff [OF r] by blast
  from processPurchase_success_cases [OF r f] obtain content where
    res: "res = \<lparr>pr_success = True, pr_content = Some content, pr_error = None\<rparr>" and
    ls': "ls' = saveState ((getInitialState ls)
       \<lparr>items := (if item_type item = INSTANT then items (getInitialState ls)
                  else (items (getInitialState ls))
                    [nat (findIndex (\<lambda>i. item_id i = itemId) (items (getInitialState ls))) :=
                       deliver_unit item]),
        users := (users (getInitialState ls))
           [nat (findIndex (\<lambda>u. user_id u = userId) (users (getInitialState ls))) :=
              user\<lparr>user_credits := user_credits user - item_price item\<rparr>],
        purchases := purchases (getInitialState ls) @
           [\<lparr>purchase_id = rnd, purchase_userId = userId, purchase_itemId = itemId,
             purchase_itemName = item_name item, purchase_contentDelivered = content,
             purchase_timestamp = now, purchase_price = item_price item\<rparr>]\<rparr>) ls"
    by blast
  have "pr_content res = Some content" by (simp add: res)
  moreover have "users (getInitialState ls') = (users (getInitialState ls))
                 [nat (findIndex (\<lambda>u. user_id u = userId) (users (getInitialState ls))) :=
                    user\<lparr>user_credits := user_credits user - item_price item\<rparr>]"
    by (simp add: ls')
  moreover have "purchases (getInitialState ls') = purchases (getInitialState ls) @
                 [\<lparr>purchase_id = rnd, purchase_userId = userId, purchase_itemId = itemId,
                   purchase_itemName = item_name item, purchase_contentDelivered = content,
                   purchase_timestamp = now, purchase_price = item_price item\<rparr>]"
    by (simp add: ls')
  moreover have "setItem_calls ls' = Suc (setItem_calls ls)" by (simp add: ls')
  ultimately show "\<exists>user item content.
               find (\<lambda>u. user_id u = userId) (users (getInitialState ls)) = Some user \<and>
               find (\<lambda>i. item_id i = itemId) (items (getInitialState ls)) = Some item \<and>
               pr_content res = Some content \<and>
               users (getInitialState ls') = (users (getInitialState ls))
                 [nat (findIndex (\<lambda>u. user_id u = userId) (users (getInitialState ls))) :=
                    user\<lparr>user_credits := user_credits user - item_price item\<rparr>] \<and>
               purchases (getInitialState ls') = purchases (getInitialState ls) @
                 [\<lparr>purchase_id = rnd, purchase_userId = userId, purchase_itemId = itemId,
                   purchase_itemName = item_name item, purchase_contentDelivered = content,
                   purchase_timestamp = now, purchase_price = item_price item\<rparr>] \<and>
               setItem_calls ls' = Suc (setItem_calls ls)"
    using f(1,2) by blast
next
  assume n: "\<not> pr_success res"
  then have "\<not> (\<exists>user item.
        find (\<lambda>u. user_id u = userId) (users (getInitialState ls)) = Some user \<and>
        find (\<lambda>i. item_id i = itemId) (items (getInitialState ls)) = Some item \<and>
        item_price item \<le> user_credits user \<and>
        (item_type item = INSTANT \<or> available_unit item \<noteq> None))"
    using processPurchase_success_iff [OF r] by simp
  from processPurchase_failure_cases [OF r this]
  show "ls' = ls"
    and "pr_error res = Some ''User or Item not found'' \<or>
         pr_error res = Some ''Insufficient credits'' \<or>
         pr_error res = Some ''Out of stock''"
    by (auto simp: purchase_failure_def)
qed


lemma shop_lookups:
  "find (\<lambda>u. user_id u = ''U'') (users (getInitialState shop)) = Some alice"
  "find (\<lambda>i. item_id i = ''I'') (items (getInitialState shop)) = Some instant_item"
  "find (\<lambda>i. item_id i = ''K'') (items (getInitialState shop)) = Some key_item"
  "find (\<lambda>i. item_id i = ''S'') (items (getInitialState shop)) = Some sold_out_item"
  by (simp_all add: shop_state_def alice_def instant_item_def key_item_def sold_out_item_def)

lemma shop_findIndex:
  "findIndex (\<lambda>u. user_id u = ''U'') (users (getInitialState shop)) = 0"
  "findIndex (\<lambda>i. item_id i = ''K'') (items (getInitialState shop)) = 1"
  by (simp_all add: shop_state_def alice_def instant_item_def key_item_def)

theorem purchase_all_or_nothing_counterexample:
  "fst (getUsers shop) = [alice] \<and> user_id alice = ''U'' \<and>
   map item_id (fst (getItems shop)) = [''I'', ''K'', ''S''] \<and>
   fst (getItems shop) ! 2 = sold_out_item \<and>
   item_price sold_out_item \<le> user_credits alice \<and>
   processPurchase ''r1'' 1 ''U'' ''S'' shop = (purchase_failure ''Out of stock'', shop)"
proof -
  have "available_unit sold_out_item = None"
    by (simp add: available_unit_def sold_out_item_def)
  moreover have "item_price sold_out_item \<le> user_credits alice"
    and "item_type sold_out_item \<noteq> INSTANT"
    by (simp_all add: sold_out_item_def alice_def)
  ultimately have "processPurchase ''r1'' 1 ''U'' ''S'' shop = (purchase_failure ''Out of stock'', shop)"
    using processPurchase_out_of_stock [OF shop_lookups(1) shop_lookups(4)] by simp
  then show ?thesis
    by (simp add: getUsers_def getItems_def shop_state_def alice_def instant_item_def
        key_item_def sold_out_item_def)
qed

theorem purchase_all_or_nothing_witness:
  "pr_success (fst (processPurchase ''r7'' 1 ''U'' ''I'' shop)) \<and>
   users (getInitialState (snd (processPurchase ''r7'' 1 ''U'' ''I'' shop))) =
     [alice\<lparr>user_credits := 70\<rparr>] \<and>
   length (purchases (getInitialState (snd (processPurchase ''r7'' 1 ''U'' ''I'' shop)))) = 1 \<and>
   setItem_calls (snd (processPurchase ''r7'' 1 ''U'' ''I'' shop)) = 1 \<and>
   \<not> pr_success (fst (processPurchase ''r8'' 2 ''U'' ''S'' shop)) \<and>
   snd (processPurchase ''r8'' 2 ''U'' ''S'' shop) = shop"
proof -
  let ?ok = "processPurchase ''r7'' 1 ''U'' ''I'' shop"
  let ?no = "processPurchase ''r8'' 2 ''U'' ''S'' shop"
  have rok: "?ok = (fst ?ok, snd ?ok)" and rno: "?no = (fst ?no, snd ?no)" by simp_all
  note ok = purchase_all_or_nothing [OF rok]
  note no = purchase_all_or_nothing [OF rno]
  have s: "pr_success (fst ?ok)"
    using ok [THEN conjunct1] shop_lookups(1,2) by (simp add: instant_item_def alice_def)
  from ok [THEN conjunct2, THEN conjunct1] s obtain user item content where
    f: "find (\<lambda>u. user_id u = ''U'') (users (getInitialState shop)) = Some user"
       "find (\<lambda>i. item_id i = ''I'') (items (getInitialState shop)) = Some item"
    and e: "users (getInitialState (snd ?ok)) = (users (getInitialState shop))
                 [nat (findIndex (\<lambda>u. user_id u = ''U'') (users (getInitialState shop))) :=
                    user\<lparr>user_credits := user_credits user - item_price item\<rparr>]"
       "purchases (getInitialState (snd ?ok)) = purchases (getInitialState shop) @
                 [\<lparr>purchase_id = ''r7'', purchase_userId = ''U'', purchase_itemId = ''I'',
                   purchase_itemName = item_name item, purchase_contentDelivered = content,
                   purchase_timestamp = 1, purchase_price = item_price item\<rparr>]"
       "setItem_calls (snd ?ok) = Suc (setItem_calls shop)"
    by blast
  from f shop_lookups have ui: "user = alice" "item = instant_item" by simp_all
  have a: "users (getInitialState (snd ?ok)) = [alice\<lparr>user_credits := 70\<rparr>]"
    unfolding e(1) ui shop_findIndex by (simp add: shop_state_def alice_def instant_item_def)
  have b: "length (purchases (getInitialState (snd ?ok))) = 1"
    unfolding e(2) by (simp add: shop_state_def)
  have c: "setItem_calls (snd ?ok) = 1"
    unfolding e(3) by (simp add: shop_def)
  have n: "\<not> pr_success (fst ?no)"
    using no [THEN conjunct1] shop_lookups(1,4)
    by (simp add: sold_out_item_def available_unit_def)
  with no have u: "snd ?no = shop" by blast
  from s a b c n u show ?thesis by blast
qed

text \<open>
  C10. For a successful \<^verbatim>\<open>processPurchase\<close> on an item of type INSTANT (the item the
  lookup by \<open>itemId\<close> returns): the items collection is unchanged; the document written
  differs from the one read only in the credits of the purchasing user (the first user with
  \<open>userId\<close>), lowered by the item's price, and in the Purchase record appended to the
  purchases; the returned content is \<open>item.content\<close>, or the empty string when it is unset.
\<close>

theorem instant_purchase_leaves_items:
  assumes r: "processPurchase rnd now userId itemId ls = (res, ls')"
    and i: "find (\<lambda>i. item_id i = itemId) (items (getInitialState ls)) = Some item"
    and t: "item_type item = INSTANT"
    and s: "pr_success res"
  shows "items (getInitialState ls') = items (getInitialState ls) \<and>
         pr_content res = Some (case item_content item of Some c \<Rightarrow> c | None \<Rightarrow> []) \<and>
         ebon_shop_db ls' = Some ((getInitialState ls)
           \<lparr>users := (users (getInitialState ls))
               [nat (findIndex (\<lambda>u. user_id u = userId) (users (getInitialState ls))) :=
                  (users (getInitialState ls) !
                     nat (findIndex (\<lambda>u. user_id u = userId) (users (getInitialState ls))))
                  \<lparr>user_credits :=
                     user_credits (users (getInitialState ls) !
                       nat (findIndex (\<lambda>u. user_id u = userId) (users (getInitialState ls))))
                     - item_price item\<rparr>],
            purchases := purchases (getInitialState ls) @
               [\<lparr>purchase_id = rnd, purchase_userId = userId, purchase_itemId = itemId,
                 purchase_itemName = item_name item,
                 purchase_contentDelivered = (case item_content item of Some c \<Rightarrow> c | None \<Rightarrow> []),
                 purchase_timestamp = now, purchase_price = item_price item\<rparr>]\<rparr>)"
proof -
  from s processPurchase_success_iff [OF r] i obtain user where
    u: "find (\<lambda>u. user_id u = userId) (users (getInitialState ls)) = Some user"
    and c: "item_price item \<le> user_credits user"
    by auto
  have n: "users (getInitialState ls) !
      nat (findIndex (\<lambda>u. user_id u = userId) (users (getInitialState ls))) = user"
    by (rule find_Some_findIndex(3) [OF u])
  from processPurchase_instant [OF u i c t, of rnd now] r
  show ?thesis by (auto simp: n)
qed

theorem instant_purchase_leaves_items_witness:
  "pr_success (fst (processPurchase ''r7'' 1 ''U'' ''I'' shop)) \<and>
   item_type instant_item = INSTANT \<and>
   items (getInitialState (snd (processPurchase ''r7'' 1 ''U'' ''I'' shop))) =
     [instant_item, key_item, sold_out_item] \<and>
   pr_content (fst (processPurchase ''r7'' 1 ''U'' ''I'' shop)) = Some ''CODE123''"
proof -
  let ?ok = "processPurchase ''r7'' 1 ''U'' ''I'' shop"
  have r: "?ok = (fst ?ok, snd ?ok)" by simp
  have t: "item_type instant_item = INSTANT" by (simp add: instant_item_def)
  have c: "item_price instant_item \<le> user_credits alice" by (simp add: instant_item_def alice_def)
  have s: "pr_success (fst ?ok)"
    by (simp add: processPurchase_instant [OF shop_lookups(1) shop_lookups(2) c t])
  from instant_purchase_leaves_items [OF r shop_lookups(2) t s] t s
  show ?thesis by (simp add: shop_state_def) (simp add: instant_item_def)
qed

text \<open>
  C5. After a successful \<^verbatim>\<open>processPurchase\<close>, started from any state (so from any
  reachable one), every user whose credits were non-negative before the call has
  non-negative credits after it. The debit is applied to the user found under \<open>userId\<close>
  and only with \<open>item.price \<le> user.credits\<close>, so the purchaser's balance after the debit
  is non-negative; the other users are unchanged.
\<close>

theorem purchase_keeps_credits_nonnegative:
  assumes r: "processPurchase rnd now userId itemId ls = (res, ls')"
    and s: "pr_success res"
  shows "length (users (getInitialState ls')) = length (users (getInitialState ls)) \<and>
         (\<forall>j<length (users (getInitialState ls)).
             0 \<le> user_credits (users (getInitialState ls) ! j) \<longrightarrow>
             0 \<le> user_credits (users (getInitialState ls') ! j)) \<and>
         (\<exists>user item.
             find (\<lambda>u. user_id u = userId) (users (getInitialState ls)) = Some user \<and>
             find (\<lambda>i. item_id i = itemId) (items (getInitialState ls)) = Some item \<and>
             item_price item \<le> user_credits user \<and>
             users (getInitialState ls') = (users (getInitialState ls))
               [nat (findIndex (\<lambda>u. user_id u = userId) (users (getInitialState ls))) :=
                  user\<lparr>user_credits := user_credits user - item_price item\<rparr>])"
proof -
  from s processPurchase_success_iff [OF r] obtain user item where f:
    "find (\<lambda>u. user_id u = userId) (users (getInitialState ls)) = Some user"
    "find (\<lambda>i. item_id i = itemId) (items (getInitialState ls)) = Some item"
    "item_price item \<le> user_credits user"
    "item_type item = INSTANT \<or> available_unit item \<noteq> None"
    by blast
  let ?us = "users (getInitialState ls)"
  let ?k = "nat (findIndex (\<lambda>u. user_id u = userId) ?us)"
  from processPurchase_success_cases [OF r f]
  have e: "users (getInitialState ls') =
      ?us[?k := user\<lparr>user_credits := user_credits user - item_price item\<rparr>]"
    by auto
  have len: "length (users (getInitialState ls')) = length ?us" by (simp add: e)
  have nn: "\<forall>j<length ?us. 0 \<le> user_credits (?us ! j) \<longrightarrow>
      0 \<le> user_credits (users (getInitialState ls') ! j)"
    using f(3) find_Some_findIndex(2) [OF f(1)] unfolding e by (auto simp: nth_list_update)
  from len nn f(1,2,3) e show ?thesis by blast
qed

theorem purchase_keeps_credits_nonnegative_witness:
  "pr_success (fst (processPurchase ''r9'' 3 ''U'' ''K'' shop)) \<and>
   0 \<le> user_credits (users (getInitialState shop) ! 0) \<and>
   0 \<le> user_credits (users (getInitialState (snd (processPurchase ''r9'' 3 ''U'' ''K'' shop))) ! 0)"
proof -
  let ?ok = "processPurchase ''r9'' 3 ''U'' ''K'' shop"
  have r: "?ok = (fst ?ok, snd ?ok)" by simp
  have t: "item_type key_item \<noteq> INSTANT" by (simp add: key_item_def)
  have c: "item_price key_item \<le> user_credits alice" by (simp add: key_item_def alice_def)
  have a: "available_unit key_item = Some \<lparr>si_content = ''KEY-1'', si_isDelivered = False\<rparr>"
    by (simp add: available_unit_def key_item_def)
  have s: "pr_success (fst ?ok)"
    by (simp add: processPurchase_sequential [OF shop_lookups(1) shop_lookups(3) c t a])
  have z: "0 \<le> user_credits (users (getInitialState shop) ! 0)"
    by (simp add: shop_state_def alice_def)
  have l: "0 < length (users (getInitialState shop))" by (simp add: shop_state_def)
  from purchase_keeps_credits_nonnegative [OF r s] z l s show ?thesis by blast
qed

section \<open>Sequences of \<^verbatim>\<open>addItem\<close> and \<^verbatim>\<open>deleteItem\<close>\<close>

lemma items_addItem: "items (getInitialState (addItem item ls)) = items (getInitialState ls) @ [item]"
  by (simp add: addItem_def Let_def)

lemma items_deleteItem:
  "items (getInitialState (deleteItem itemId ls)) =
     filter (\<lambda>i. item_id i \<noteq> itemId) (items (getInitialState ls))"
  by (simp add: deleteItem_def Let_def)

lemma spec_net_items_Add:
  "spec_net_items initial (Add item # cs) = spec_net_items (initial @ [item]) cs"
  by (simp add: spec_net_items_def)

lemma spec_net_items_Delete:
  "spec_net_items initial (Delete itemId # cs) =
     spec_net_items (filter (\<lambda>i. item_id i \<noteq> itemId) initial) cs"
proof -
  have "filter (\<lambda>item. Delete (item_id item) \<notin> set (Delete itemId # cs)) initial =
      filter (\<lambda>item. Delete (item_id item) \<notin> set cs) (filter (\<lambda>i. item_id i \<noteq> itemId) initial)"
    by (induction initial) auto
  then show ?thesis by (simp add: spec_net_items_def)
qed

text \<open>
  C7. After any sequence of \<^verbatim>\<open>addItem\<close> and \<^verbatim>\<open>deleteItem\<close> calls, from any storage (key
  absent or present), \<^verbatim>\<open>getItems()\<close> returns exactly what the spec's reading
  \<open>spec_net_items\<close> gives: the items present at the start and the items added, without
  every item whose id a later \<^verbatim>\<open>deleteItem\<close> names (all matches are removed), the
  survivors in their original insertion order.
\<close>

theorem getItems_after_adds_and_deletes:
  "fst (getItems (item_calls cs ls)) = spec_net_items (fst (getItems ls)) cs"
proof (induction cs arbitrary: ls)
  case Nil
  show ?case by (simp add: spec_net_items_def)
next
  case (Cons c cs)
  show ?case
  proof (cases c)
    case (Add item)
    have "fst (getItems (item_calls (c # cs) ls)) = spec_net_items (fst (getItems (addItem item ls))) cs"
      using Cons.IH [of "addItem item ls"] Add by simp
    also have "\<dots> = spec_net_items (fst (getItems ls)) (c # cs)"
      by (simp add: getItems_def items_addItem spec_net_items_Add Add)
    finally show ?thesis .
  next
    case (Delete itemId)
    have "fst (getItems (item_calls (c # cs) ls)) = spec_net_items (fst (getItems (deleteItem itemId ls))) cs"
      using Cons.IH [of "deleteItem itemId ls"] Delete by simp
    also have "\<dots> = spec_net_items (fst (getItems ls)) (c # cs)"
      by (simp add: getItems_def items_deleteItem spec_net_items_Delete Delete)
    finally show ?thesis .
  qed
qed

theorem getItems_after_adds_and_deletes_witness:
  "fst (getItems (item_calls [Add key_item, Delete ''I'', Add instant_item, Add sold_out_item,
       Delete ''S''] shop)) = [key_item, key_item, instant_item]"
proof -
  have ids: "item_id instant_item = ''I''" "item_id key_item = ''K''" "item_id sold_out_item = ''S''"
    by (simp_all add: instant_item_def key_item_def sold_out_item_def)
  show ?thesis
    using getItems_after_adds_and_deletes
      [of "[Add key_item, Delete ''I'', Add instant_item, Add sold_out_item, Delete ''S'']" shop]
    by (simp add: spec_net_items_def getItems_def shop_state_def ids)
qed

section \<open>What each operation does to the redeem codes\<close>

lemma modify_first_keeps_others:
  assumes "\<And>x. P x \<Longrightarrow> \<not> Q x" and "i < length xs" and "Q (xs ! i)"
  shows "modify_first P f xs ! i = xs ! i"
proof (cases "find P xs")
  case None
  then show ?thesis by (simp add: modify_first_None)
next
  case (Some x)
  from find_Some_findIndex [OF Some]
  have k: "P (xs ! nat (findIndex P xs))" by simp
  with assms(1,3) have "nat (findIndex P xs) \<noteq> i" by blast
  then show ?thesis by (simp add: modify_first_list_update [OF Some])
qed

lemma redeemCodes_complete_purchase:
  "redeemCodes (getInitialState (snd (complete_purchase rnd now userId itemId item content state ls))) =
     redeemCodes state"
  by (simp add: complete_purchase_def Let_def)

lemma redeemCodes_processPurchase:
  "redeemCodes (getInitialState (snd (processPurchase rnd now userId itemId ls))) =
     redeemCodes (getInitialState ls)"
  by (simp add: processPurchase_def Let_def redeemCodes_complete_purchase
      split: option.splits)

lemma redeemCodes_unchanged:
  "redeemCodes (getInitialState (addUser user ls)) = redeemCodes (getInitialState ls)"
  "redeemCodes (getInitialState (updateUserCredits userId amount ls)) = redeemCodes (getInitialState ls)"
  "redeemCodes (getInitialState (addItem item ls)) = redeemCodes (getInitialState ls)"
  "redeemCodes (getInitialState (snd (updateItem item ls))) = redeemCodes (getInitialState ls)"
  "redeemCodes (getInitialState (deleteItem itemId ls)) = redeemCodes (getInitialState ls)"
  "redeemCodes (getInitialState (addPurchase purchase ls)) = redeemCodes (getInitialState ls)"
  "redeemCodes (getInitialState (addTransaction transaction ls)) = redeemCodes (getInitialState ls)"
  "redeemCodes (getInitialState (updateTransactionStatus tid status ls)) = redeemCodes (getInitialState ls)"
  "redeemCodes (getInitialState (createTicket ticket ls)) = redeemCodes (getInitialState ls)"
  "redeemCodes (getInitialState (addTicketMessage now ticketId message ls)) = redeemCodes (getInitialState ls)"
  "redeemCodes (getInitialState (closeTicket now ticketId ls)) = redeemCodes (getInitialState ls)"
  by (simp_all add: addUser_def updateUserCredits_def addItem_def updateItem_def deleteItem_def
      addPurchase_def addTransaction_def updateTransactionStatus_def createTicket_def
      addTicketMessage_def closeTicket_def Let_def split: option.splits)

lemma redeemCodes_reads:
  "snd (getUsers ls) = ls" "snd (getItems ls) = ls" "snd (getPurchases ls) = ls"
  "snd (getTransactions ls) = ls" "snd (getRedeemCodes ls) = ls" "snd (getTickets ls) = ls"
  by (simp_all add: getUsers_def getItems_def getPurchases_def getTransactions_def
      getRedeemCodes_def getTickets_def)

lemma redeemCodes_addRedeemCode:
  "redeemCodes (getInitialState (addRedeemCode code ls)) = redeemCodes (getInitialState ls) @ [code]"
  by (simp add: addRedeemCode_def Let_def)

lemma redeemCodes_redeem:
  "redeemCodes (getInitialState (snd (redeem userId codeStr ls))) = redeemCodes (getInitialState ls) \<or>
   redeemCodes (getInitialState (snd (redeem userId codeStr ls))) =
     modify_first (\<lambda>c. rc_code c = codeStr \<and> \<not> rc_isUsed c) (\<lambda>c. c\<lparr>rc_isUsed := True\<rparr>)
       (redeemCodes (getInitialState ls))"
  by (simp add: redeem_def Let_def split: option.splits)

lemma call_keeps_used_codes:
  assumes "i < length (redeemCodes (getInitialState ls))"
    and "rc_isUsed (redeemCodes (getInitialState ls) ! i)"
  shows "i < length (redeemCodes (getInitialState (call c ls))) \<and>
         redeemCodes (getInitialState (call c ls)) ! i = redeemCodes (getInitialState ls) ! i"
proof (cases c)
  case (AddRedeemCode code)
  with assms show ?thesis by (simp add: redeemCodes_addRedeemCode nth_append)
next
  case (Redeem userId codeStr)
  let ?P = "\<lambda>c. rc_code c = codeStr \<and> \<not> rc_isUsed c"
  have "modify_first ?P (\<lambda>c. c\<lparr>rc_isUsed := True\<rparr>) (redeemCodes (getInitialState ls)) ! i =
      redeemCodes (getInitialState ls) ! i"
    by (rule modify_first_keeps_others [where Q = rc_isUsed]) (use assms in auto)
  with redeemCodes_redeem [of userId codeStr ls] assms Redeem show ?thesis by auto
qed (use assms in \<open>simp_all add: redeemCodes_unchanged redeemCodes_reads redeemCodes_processPurchase\<close>)

lemma calls_keep_used_codes:
  assumes "i < length (redeemCodes (getInitialState ls))"
    and "rc_isUsed (redeemCodes (getInitialState ls) ! i)"
  shows "i < length (redeemCodes (getInitialState (calls cs ls))) \<and>
         redeemCodes (getInitialState (calls cs ls)) ! i = redeemCodes (getInitialState ls) ! i"
  using assms
proof (induction cs arbitrary: ls)
  case Nil
  then show ?case by simp
next
  case (Cons c cs)
  from call_keeps_used_codes [OF Cons.prems, of c]
  have 1: "i < length (redeemCodes (getInitialState (call c ls)))"
    and 2: "redeemCodes (getInitialState (call c ls)) ! i = redeemCodes (getInitialState ls) ! i"
    by simp_all
  from Cons.prems(2) 2 have 3: "rc_isUsed (redeemCodes (getInitialState (call c ls)) ! i)" by simp
  from Cons.IH [OF 1 3] 2 show ?case by simp
qed

lemma redeem_used_fails:
  assumes "\<forall>c\<in>set (redeemCodes (getInitialState ls)). rc_code c = codeStr \<longrightarrow> rc_isUsed c"
  shows "redeem userId codeStr ls =
     (\<lparr>rr_success = False, rr_amount = None,
       rr_error = Some (if find (\<lambda>u. user_id u = userId) (users (getInitialState ls)) = None
                        then ''User not found'' else ''Invalid or already used code'')\<rparr>, ls)"
proof -
  have "find (\<lambda>c. rc_code c = codeStr \<and> \<not> rc_isUsed c) (redeemCodes (getInitialState ls)) = None"
    using assms by (auto simp: find_None_iff)
  then show ?thesis by (simp add: redeem_def Let_def split: option.splits)
qed

lemma redeem_success_marks_unused:
  assumes "rr_success (fst (redeem userId codeStr ls))"
  shows "\<exists>j<length (redeemCodes (getInitialState ls)).
     \<not> rc_isUsed (redeemCodes (getInitialState ls) ! j) \<and>
     rc_code (redeemCodes (getInitialState ls) ! j) = codeStr \<and>
     redeemCodes (getInitialState (snd (redeem userId codeStr ls))) =
       (redeemCodes (getInitialState ls))
         [j := (redeemCodes (getInitialState ls) ! j)\<lparr>rc_isUsed := True\<rparr>]"
proof -
  let ?P = "\<lambda>c. rc_code c = codeStr \<and> \<not> rc_isUsed c"
  let ?cs = "redeemCodes (getInitialState ls)"
  from assms obtain code where c: "find ?P ?cs = Some code"
    by (auto simp: redeem_def Let_def split: option.splits)
  from assms c have e: "redeemCodes (getInitialState (snd (redeem userId codeStr ls))) =
      modify_first ?P (\<lambda>c. c\<lparr>rc_isUsed := True\<rparr>) ?cs"
    by (auto simp: redeem_def Let_def split: option.splits)
  note k = find_Some_findIndex [OF c]
  have "redeemCodes (getInitialState (snd (redeem userId codeStr ls))) =
      ?cs[nat (findIndex ?P ?cs) := (?cs ! nat (findIndex ?P ?cs))\<lparr>rc_isUsed := True\<rparr>]"
    unfolding e modify_first_list_update [OF c] k(3) ..
  with k show ?thesis by blast
qed

text \<open>
  C4, as the code has it. In a state where every redeem code record that matches
  \<open>codeStr\<close> is marked used, \<^verbatim>\<open>redeem(userId, codeStr)\<close> fails and leaves the storage exactly
  as it was (no credits change, nothing is written); the error is 'Invalid or already used
  code' when a user with \<open>userId\<close> is stored and 'User not found' when none is, because the
  user is looked up first. A record that is marked used stays at its position, unchanged
  and so still used, through every sequence \<open>cs\<close> of calls of the operations. A \<^verbatim>\<open>redeem\<close>
  that succeeds marks a record that was not used before the call, and changes no other
  record; so it is never a record that was already used.
\<close>

theorem used_code_is_never_redeemed:
  "((\<forall>c\<in>set (redeemCodes (getInitialState ls)). rc_code c = codeStr \<longrightarrow> rc_isUsed c) \<longrightarrow>
      snd (redeem userId codeStr ls) = ls \<and>
      \<not> rr_success (fst (redeem userId codeStr ls)) \<and>
      rr_error (fst (redeem userId codeStr ls)) =
        Some (if find (\<lambda>u. user_id u = userId) (users (getInitialState ls)) = None
              then ''User not found'' else ''Invalid or already used code'')) \<and>
   (\<forall>i<length (redeemCodes (getInitialState ls)).
      rc_isUsed (redeemCodes (getInitialState ls) ! i) \<longrightarrow>
      i < length (redeemCodes (getInitialState (calls cs ls))) \<and>
      redeemCodes (getInitialState (calls cs ls)) ! i = redeemCodes (getInitialState ls) ! i) \<and>
   (rr_success (fst (redeem userId codeStr ls)) \<longrightarrow>
      (\<exists>j<length (redeemCodes (getInitialState ls)).
         \<not> rc_isUsed (redeemCodes (getInitialState ls) ! j) \<and>
         rc_code (redeemCodes (getInitialState ls) ! j) = codeStr \<and>
         redeemCodes (getInitialState (snd (redeem userId codeStr ls))) =
           (redeemCodes (getInitialState ls))
             [j := (redeemCodes (getInitialState ls) ! j)\<lparr>rc_isUsed := True\<rparr>]))"
proof (intro conjI)
  show "(\<forall>c\<in>set (redeemCodes (getInitialState ls)). rc_code c = codeStr \<longrightarrow> rc_isUsed c) \<longrightarrow>
      snd (redeem userId codeStr ls) = ls \<and>
      \<not> rr_success (fst (redeem userId codeStr ls)) \<and>
      rr_error (fst (redeem userId codeStr ls)) =
        Some (if find (\<lambda>u. user_id u = userId) (users (getInitialState ls)) = None
              then ''User not found'' else ''Invalid or already used code'')"
    by (simp add: redeem_used_fails)
next
  show "\<forall>i<length (redeemCodes (getInitialState ls)).
      rc_isUsed (redeemCodes (getInitialState ls) ! i) \<longrightarrow>
      i < length (redeemCodes (getInitialState (calls cs ls))) \<and>
      redeemCodes (getInitialState (calls cs ls)) ! i = redeemCodes (getInitialState ls) ! i"
    using calls_keep_used_codes by blast
next
  show "rr_success (fst (redeem userId codeStr ls)) \<longrightarrow>
      (\<exists>j<length (redeemCodes (getInitialState ls)).
         \<not> rc_isUsed (redeemCodes (getInitialState ls) ! j) \<and>
         rc_code (redeemCodes (getInitialState ls) ! j) = codeStr \<and>
         redeemCodes (getInitialState (snd (redeem userId codeStr ls))) =
           (redeemCodes (getInitialState ls))
             [j := (redeemCodes (getInitialState ls) ! j)\<lparr>rc_isUsed := True\<rparr>])"
    using redeem_success_marks_unused by blast
qed

theorem used_code_is_never_redeemed_counterexample:
  "fst (getRedeemCodes shop) = [used_code, fresh_code] \<and>
   rc_code used_code = ''WELCOME10'' \<and> rc_isUsed used_code \<and>
   rc_code fresh_code \<noteq> ''WELCOME10'' \<and>
   fst (redeem ''ghost'' ''WELCOME10'' shop) =
     \<lparr>rr_success = False, rr_amount = None, rr_error = Some ''User not found''\<rparr> \<and>
   rr_error (fst (redeem ''ghost'' ''WELCOME10'' shop)) \<noteq> Some ''Invalid or already used code''"
  by (simp add: getRedeemCodes_def redeem_def Let_def shop_state_def alice_def used_code_def
      fresh_code_def)

theorem used_code_is_never_redeemed_witness:
  "map rc_isUsed (filter (\<lambda>c. rc_code c = ''WELCOME10'') (redeemCodes (getInitialState shop))) = [True] \<and>
   snd (redeem ''U'' ''WELCOME10'' shop) = shop \<and>
   rr_error (fst (redeem ''U'' ''WELCOME10'' shop)) = Some ''Invalid or already used code'' \<and>
   rr_error (fst (redeem ''ghost'' ''WELCOME10'' shop)) = Some ''User not found'' \<and>
   rc_isUsed (redeemCodes (getInitialState shop) ! 0) \<and>
   redeemCodes (getInitialState (calls
       [Redeem ''U'' ''SPRING5'', AddRedeemCode (used_code\<lparr>rc_isUsed := False\<rparr>),
        Redeem ''U'' ''WELCOME10'', DeleteItem ''K''] shop)) ! 0 = used_code \<and>
   rr_success (fst (redeem ''U'' ''SPRING5'' shop)) \<and>
   redeemCodes (getInitialState (snd (redeem ''U'' ''SPRING5'' shop))) =
     [used_code, fresh_code\<lparr>rc_isUsed := True\<rparr>]"
proof -
  let ?cs = "[Redeem ''U'' ''SPRING5'', AddRedeemCode (used_code\<lparr>rc_isUsed := False\<rparr>),
        Redeem ''U'' ''WELCOME10'', DeleteItem ''K'']"
  have h: "\<forall>c\<in>set (redeemCodes (getInitialState shop)). rc_code c = ''WELCOME10'' \<longrightarrow> rc_isUsed c"
    by (simp add: shop_state_def used_code_def fresh_code_def)
  have u: "find (\<lambda>u. user_id u = ''U'') (users (getInitialState shop)) \<noteq> None"
    and g: "find (\<lambda>u. user_id u = ''ghost'') (users (getInitialState shop)) = None"
    by (simp_all add: shop_state_def alice_def)
  have z: "0 < length (redeemCodes (getInitialState shop))"
    and d: "rc_isUsed (redeemCodes (getInitialState shop) ! 0)"
    and e: "redeemCodes (getInitialState shop) ! 0 = used_code"
    by (simp_all add: shop_state_def used_code_def)
  note a = used_code_is_never_redeemed [of shop "''WELCOME10''" "''U''" ?cs]
  note b = used_code_is_never_redeemed [of shop "''WELCOME10''" "''ghost''" ?cs]
  have 1: "snd (redeem ''U'' ''WELCOME10'' shop) = shop"
    and 2: "rr_error (fst (redeem ''U'' ''WELCOME10'' shop)) = Some ''Invalid or already used code''"
    using a h u by simp_all
  have 3: "rr_error (fst (redeem ''ghost'' ''WELCOME10'' shop)) = Some ''User not found''"
    using b h g by simp
  have 4: "redeemCodes (getInitialState (calls ?cs shop)) ! 0 = used_code"
    using a z d e by simp
  have 5: "rr_success (fst (redeem ''U'' ''SPRING5'' shop))"
    by (simp add: redeem_def Let_def shop_state_def alice_def used_code_def fresh_code_def)
  have 6: "redeemCodes (getInitialState (snd (redeem ''U'' ''SPRING5'' shop))) =
     [used_code, fresh_code\<lparr>rc_isUsed := True\<rparr>]"
    by (simp add: redeem_def Let_def shop_state_def alice_def used_code_def fresh_code_def)
  have 0: "map rc_isUsed (filter (\<lambda>c. rc_code c = ''WELCOME10'') (redeemCodes (getInitialState shop))) = [True]"
    by (simp add: shop_state_def used_code_def fresh_code_def)
  from 0 1 2 3 d 4 5 6 show ?thesis by blast
qed

section \<open>Repeated purchases of a sequential item\<close>

lemma purchase_run_append:
  "purchase_run (env1 @ env2) userId itemId ls =
     (fst (purchase_run env1 userId itemId ls) @
        fst (purchase_run env2 userId itemId (snd (purchase_run env1 userId itemId ls))),
      snd (purchase_run env2 userId itemId (snd (purchase_run env1 userId itemId ls))))"
  by (induction env1 arbitrary: ls) (auto split: prod.splits)

lemma sequential_step:
  assumes u: "find (\<lambda>u. user_id u = userId) (users (getInitialState ls)) = Some user"
    and i: "find (\<lambda>i. item_id i = itemId) (items (getInitialState ls)) = Some item"
    and c: "item_price item \<le> user_credits user"
    and t: "item_type item \<noteq> INSTANT"
    and a: "available_unit item = Some available"
  shows "fst (processPurchase rnd now userId itemId ls) =
           \<lparr>pr_success = True, pr_content = Some (si_content available), pr_error = None\<rparr>"
    and "find (\<lambda>u. user_id u = userId)
           (users (getInitialState (snd (processPurchase rnd now userId itemId ls)))) =
           Some (user\<lparr>user_credits := user_credits user - item_price item\<rparr>)"
    and "find (\<lambda>i. item_id i = itemId)
           (items (getInitialState (snd (processPurchase rnd now userId itemId ls)))) =
           Some (deliver_unit item)"
proof -
  have e: "processPurchase rnd now userId itemId ls =
      complete_purchase rnd now userId itemId (deliver_unit item) (si_content available)
        ((getInitialState ls)\<lparr>items := modify_first (\<lambda>i. item_id i = itemId) deliver_unit
            (items (getInitialState ls))\<rparr>) ls"
    using u i c t a by (simp add: processPurchase_def Let_def)
  show "fst (processPurchase rnd now userId itemId ls) =
           \<lparr>pr_success = True, pr_content = Some (si_content available), pr_error = None\<rparr>"
    unfolding e by (simp add: complete_purchase_def Let_def)
  show "find (\<lambda>u. user_id u = userId)
           (users (getInitialState (snd (processPurchase rnd now userId itemId ls)))) =
           Some (user\<lparr>user_credits := user_credits user - item_price item\<rparr>)"
    unfolding e using u by (simp add: complete_purchase_def Let_def find_modify_first)
  show "find (\<lambda>i. item_id i = itemId)
           (items (getInitialState (snd (processPurchase rnd now userId itemId ls)))) =
           Some (deliver_unit item)"
    unfolding e using i by (simp add: complete_purchase_def Let_def find_modify_first)
qed

lemma available_unit_next:
  assumes "item_sequentialItems item = Some (pre @ a # rest)"
    and "\<forall>si\<in>set pre. si_isDelivered si" and "\<not> si_isDelivered a"
  shows "available_unit item = Some a"
    and "deliver_unit item =
      item\<lparr>item_sequentialItems := Some (pre @ a\<lparr>si_isDelivered := True\<rparr> # rest),
           item_deliveredCount := item_deliveredCount item + 1\<rparr>"
  using assms
  by (simp_all add: available_unit_def deliver_unit_def find_append_skip modify_first_append_skip)

lemma available_unit_none:
  assumes "item_sequentialItems item = Some sis" and "\<forall>si\<in>set sis. si_isDelivered si"
  shows "available_unit item = None"
  using assms by (simp add: available_unit_def find_None_iff)

lemma purchase_run_units:
  assumes "find (\<lambda>u. user_id u = userId) (users (getInitialState ls)) = Some user"
    and "find (\<lambda>i. item_id i = itemId) (items (getInitialState ls)) = Some item"
    and "item_type item \<noteq> INSTANT"
    and "item_sequentialItems item = Some (pre @ us @ post)"
    and "\<forall>si\<in>set pre. si_isDelivered si"
    and "\<forall>si\<in>set us. \<not> si_isDelivered si"
    and "length env = length us"
    and "\<forall>k<length us. item_price item \<le> user_credits user - int k * item_price item"
  shows "fst (purchase_run env userId itemId ls) =
           map (\<lambda>si. \<lparr>pr_success = True, pr_content = Some (si_content si), pr_error = None\<rparr>) us \<and>
         find (\<lambda>u. user_id u = userId)
           (users (getInitialState (snd (purchase_run env userId itemId ls)))) =
           Some (user\<lparr>user_credits := user_credits user - int (length us) * item_price item\<rparr>) \<and>
         find (\<lambda>i. item_id i = itemId)
           (items (getInitialState (snd (purchase_run env userId itemId ls)))) =
           Some (item\<lparr>item_sequentialItems :=
                        Some (pre @ map (\<lambda>si. si\<lparr>si_isDelivered := True\<rparr>) us @ post),
                      item_deliveredCount := item_deliveredCount item + int (length us)\<rparr>)"
  using assms
proof (induction us arbitrary: env ls user item pre)
  case Nil
  then show ?case by simp
next
  case (Cons a us)
  from Cons.prems(7) obtain rnd now env' where env: "env = (rnd, now) # env'"
    and len: "length env' = length us"
    by (cases env) auto
  let ?ls1 = "snd (processPurchase rnd now userId itemId ls)"
  let ?user1 = "user\<lparr>user_credits := user_credits user - item_price item\<rparr>"
  let ?item1 = "deliver_unit item"
  have c0: "item_price item \<le> user_credits user" using Cons.prems(8) by auto
  have s: "item_sequentialItems item = Some (pre @ a # (us @ post))" using Cons.prems(4) by simp
  have na: "\<not> si_isDelivered a" using Cons.prems(6) by simp
  note av = available_unit_next [OF s Cons.prems(5) na]
  note st = sequential_step [OF Cons.prems(1) Cons.prems(2) c0 Cons.prems(3) av(1), of rnd now]
  have t1: "item_type ?item1 \<noteq> INSTANT" using Cons.prems(3) by simp
  have s1: "item_sequentialItems ?item1 =
      Some ((pre @ [a\<lparr>si_isDelivered := True\<rparr>]) @ us @ post)"
    unfolding av(2) by simp
  have d1: "\<forall>si\<in>set (pre @ [a\<lparr>si_isDelivered := True\<rparr>]). si_isDelivered si"
    using Cons.prems(5) by simp
  have f1: "\<forall>si\<in>set us. \<not> si_isDelivered si" using Cons.prems(6) by simp
  have c1: "\<forall>k<length us. item_price ?item1 \<le> user_credits ?user1 - int k * item_price ?item1"
  proof (intro allI impI)
    fix k assume "k < length us"
    then have "Suc k < length (a # us)" by simp
    with Cons.prems(8) have "item_price item \<le> user_credits user - int (Suc k) * item_price item"
      by blast
    then show "item_price ?item1 \<le> user_credits ?user1 - int k * item_price ?item1"
      by (simp add: algebra_simps)
  qed
  note ih = Cons.IH [OF st(2) st(3) t1 s1 d1 f1 len c1]
  have run: "purchase_run env userId itemId ls =
      (fst (processPurchase rnd now userId itemId ls) # fst (purchase_run env' userId itemId ?ls1),
       snd (purchase_run env' userId itemId ?ls1))"
    unfolding env by (simp split: prod.splits)
  have r1: "fst (purchase_run env userId itemId ls) =
      map (\<lambda>si. \<lparr>pr_success = True, pr_content = Some (si_content si), pr_error = None\<rparr>) (a # us)"
    unfolding run using st(1) ih by simp
  have r2: "find (\<lambda>u. user_id u = userId)
           (users (getInitialState (snd (purchase_run env userId itemId ls)))) =
           Some (user\<lparr>user_credits := user_credits user - int (length (a # us)) * item_price item\<rparr>)"
    unfolding run using ih by (simp add: algebra_simps)
  have r3: "find (\<lambda>i. item_id i = itemId)
           (items (getInitialState (snd (purchase_run env userId itemId ls)))) =
           Some (item\<lparr>item_sequentialItems :=
                        Some (pre @ map (\<lambda>si. si\<lparr>si_isDelivered := True\<rparr>) (a # us) @ post),
                      item_deliveredCount := item_deliveredCount item + int (length (a # us))\<rparr>)"
    unfolding run using ih by (simp add: av(2) algebra_simps)
  from r1 r2 r3 show ?case by blast
qed


text \<open>
  C2. Let \<open>item\<close> be the SEQUENTIAL item the lookup by \<open>itemId\<close> returns, with the units
  \<open>units\<close> (N of them), none delivered, and \<open>user\<close> the user the lookup by \<open>userId\<close>
  returns, with credits that cover the price at each of N + 1 calls in a row. Then N + 1
  calls of \<^verbatim>\<open>processPurchase(userId, itemId)\<close> return, in order, one success for each
  unit, with the content of the units in list order, and then the failure 'Out of
  stock'. After the first \<open>k\<close> calls (\<open>k \<le> N\<close>) exactly the first \<open>k\<close> units are marked
  delivered and \<open>deliveredCount\<close> has grown by \<open>k\<close>; the failing call changes nothing.
\<close>

theorem sequential_item_sells_each_unit_once:
  assumes u: "find (\<lambda>u. user_id u = userId) (users (getInitialState ls)) = Some user"
    and i: "find (\<lambda>i. item_id i = itemId) (items (getInitialState ls)) = Some item"
    and t: "item_type item = SEQUENTIAL"
    and s: "item_sequentialItems item = Some units"
    and f: "\<forall>si\<in>set units. \<not> si_isDelivered si"
    and e: "length env = Suc (length units)"
    and c: "\<forall>k\<le>length units. item_price item \<le> user_credits user - int k * item_price item"
  shows "fst (purchase_run env userId itemId ls) =
           map (\<lambda>si. \<lparr>pr_success = True, pr_content = Some (si_content si), pr_error = None\<rparr>) units
           @ [\<lparr>pr_success = False, pr_content = None, pr_error = Some ''Out of stock''\<rparr>] \<and>
         (\<forall>k\<le>length units.
            find (\<lambda>i. item_id i = itemId)
              (items (getInitialState (snd (purchase_run (take k env) userId itemId ls)))) =
            Some (item\<lparr>item_sequentialItems :=
                         Some (map (\<lambda>si. si\<lparr>si_isDelivered := True\<rparr>) (take k units) @ drop k units),
                       item_deliveredCount := item_deliveredCount item + int k\<rparr>)) \<and>
         snd (purchase_run env userId itemId ls) =
           snd (purchase_run (take (length units) env) userId itemId ls)"
proof -
  let ?ok = "\<lambda>si. \<lparr>pr_success = True, pr_content = Some (si_content si), pr_error = None\<rparr>"
  let ?mark = "\<lambda>si. si\<lparr>si_isDelivered := True\<rparr>"
  let ?N = "length units"
  have t': "item_type item \<noteq> INSTANT" using t by simp
  have prefix: "fst (purchase_run (take k env) userId itemId ls) = map ?ok (take k units) \<and>
      find (\<lambda>u. user_id u = userId)
        (users (getInitialState (snd (purchase_run (take k env) userId itemId ls)))) =
        Some (user\<lparr>user_credits := user_credits user - int k * item_price item\<rparr>) \<and>
      find (\<lambda>i. item_id i = itemId)
        (items (getInitialState (snd (purchase_run (take k env) userId itemId ls)))) =
        Some (item\<lparr>item_sequentialItems := Some (map ?mark (take k units) @ drop k units),
                   item_deliveredCount := item_deliveredCount item + int k\<rparr>)"
    if k: "k \<le> ?N" for k
  proof -
    have s': "item_sequentialItems item = Some ([] @ take k units @ drop k units)" using s by simp
    have d': "\<forall>si\<in>set []. si_isDelivered si" by simp
    have f': "\<forall>si\<in>set (take k units). \<not> si_isDelivered si" using f by (auto dest: in_set_takeD)
    have e': "length (take k env) = length (take k units)" using e k by simp
    have lk: "length (take k units) = k" using k by simp
    have c': "\<forall>j<length (take k units).
        item_price item \<le> user_credits user - int j * item_price item"
      using c k by (simp add: lk)
    have m: "min (length units) k = k" using k by simp
    from purchase_run_units [OF u i t' s' d' f' e' c'] show ?thesis by (simp add: m)
  qed
  have all: "\<forall>k\<le>?N.
            find (\<lambda>i. item_id i = itemId)
              (items (getInitialState (snd (purchase_run (take k env) userId itemId ls)))) =
            Some (item\<lparr>item_sequentialItems := Some (map ?mark (take k units) @ drop k units),
                       item_deliveredCount := item_deliveredCount item + int k\<rparr>)"
    using prefix by blast
  let ?lsN = "snd (purchase_run (take ?N env) userId itemId ls)"
  let ?userN = "user\<lparr>user_credits := user_credits user - int ?N * item_price item\<rparr>"
  let ?itemN = "item\<lparr>item_sequentialItems := Some (map ?mark units),
                     item_deliveredCount := item_deliveredCount item + int ?N\<rparr>"
  from prefix [of ?N] have
    rN: "fst (purchase_run (take ?N env) userId itemId ls) = map ?ok units" and
    uN: "find (\<lambda>u. user_id u = userId) (users (getInitialState ?lsN)) = Some ?userN" and
    iN: "find (\<lambda>i. item_id i = itemId) (items (getInitialState ?lsN)) = Some ?itemN"
    by simp_all
  have cN: "item_price ?itemN \<le> user_credits ?userN" using c by simp
  have tN: "item_type ?itemN \<noteq> INSTANT" using t by simp
  have aN: "available_unit ?itemN = None"
    by (rule available_unit_none [where sis = "map ?mark units"]) simp_all
  obtain rnd now where last: "env ! ?N = (rnd, now)" by (cases "env ! ?N")
  have split: "env = take ?N env @ [(rnd, now)]"
    using e last by (metis lessI take_Suc_conv_app_nth take_all order_refl)
  have lastcall: "processPurchase rnd now userId itemId ?lsN = (purchase_failure ''Out of stock'', ?lsN)"
    by (rule processPurchase_out_of_stock [OF uN iN cN tN aN])
  have run: "purchase_run env userId itemId ls =
      (map ?ok units @ [purchase_failure ''Out of stock''], ?lsN)"
  proof -
    have "purchase_run env userId itemId ls =
        purchase_run (take ?N env @ [(rnd, now)]) userId itemId ls"
      using split by simp
    also have "\<dots> = (map ?ok units @ [purchase_failure ''Out of stock''], ?lsN)"
      unfolding purchase_run_append by (simp add: rN lastcall)
    finally show ?thesis .
  qed
  from run all show ?thesis by (simp add: purchase_failure_def)
qed

theorem sequential_item_sells_each_unit_once_witness:
  "item_type key_item = SEQUENTIAL \<and>
   item_sequentialItems key_item =
     Some [\<lparr>si_content = ''KEY-1'', si_isDelivered = False\<rparr>,
           \<lparr>si_content = ''KEY-2'', si_isDelivered = False\<rparr>] \<and>
   fst (purchase_run [(''a'', 1), (''b'', 2), (''c'', 3)] ''U'' ''K'' shop) =
     [\<lparr>pr_success = True, pr_content = Some ''KEY-1'', pr_error = None\<rparr>,
      \<lparr>pr_success = True, pr_content = Some ''KEY-2'', pr_error = None\<rparr>,
      \<lparr>pr_success = False, pr_content = None, pr_error = Some ''Out of stock''\<rparr>] \<and>
   find (\<lambda>i. item_id i = ''K'')
     (items (getInitialState (snd (purchase_run [(''a'', 1), (''b'', 2)] ''U'' ''K'' shop)))) =
     Some (key_item\<lparr>item_sequentialItems :=
                       Some [\<lparr>si_content = ''KEY-1'', si_isDelivered = True\<rparr>,
                             \<lparr>si_content = ''KEY-2'', si_isDelivered = True\<rparr>],
                     item_deliveredCount := 2\<rparr>)"
proof -
  let ?units = "[\<lparr>si_content = ''KEY-1'', si_isDelivered = False\<rparr>,
                 \<lparr>si_content = ''KEY-2'', si_isDelivered = False\<rparr>]"
  let ?env = "[(''a'', 1), (''b'', 2), (''c'', 3)] :: (string \<times> int) list"
  have t: "item_type key_item = SEQUENTIAL" by (simp add: key_item_def)
  have s: "item_sequentialItems key_item = Some ?units" by (simp add: key_item_def)
  have f: "\<forall>si\<in>set ?units. \<not> si_isDelivered si" by simp
  have e: "length ?env = Suc (length ?units)" by simp
  have c: "\<forall>k\<le>length ?units. item_price key_item \<le> user_credits alice - int k * item_price key_item"
    by (auto simp: key_item_def alice_def)
  note r = sequential_item_sells_each_unit_once [OF shop_lookups(1) shop_lookups(3) t s f e c]
  have 1: "fst (purchase_run ?env ''U'' ''K'' shop) =
     [\<lparr>pr_success = True, pr_content = Some ''KEY-1'', pr_error = None\<rparr>,
      \<lparr>pr_success = True, pr_content = Some ''KEY-2'', pr_error = None\<rparr>,
      \<lparr>pr_success = False, pr_content = None, pr_error = Some ''Out of stock''\<rparr>]"
    using r [THEN conjunct1] by simp
  have "2 \<le> length ?units" by simp
  with r [THEN conjunct2, THEN conjunct1] have
    "find (\<lambda>i. item_id i = ''K'')
       (items (getInitialState (snd (purchase_run (take 2 ?env) ''U'' ''K'' shop)))) =
     Some (key_item\<lparr>item_sequentialItems :=
              Some (map (\<lambda>si. si\<lparr>si_isDelivered := True\<rparr>) (take 2 ?units) @ drop 2 ?units),
            item_deliveredCount := item_deliveredCount key_item + int 2\<rparr>)"
    by blast
  then have 2: "find (\<lambda>i. item_id i = ''K'')
     (items (getInitialState (snd (purchase_run [(''a'', 1), (''b'', 2)] ''U'' ''K'' shop)))) =
     Some (key_item\<lparr>item_sequentialItems :=
                       Some [\<lparr>si_content = ''KEY-1'', si_isDelivered = True\<rparr>,
                             \<lparr>si_content = ''KEY-2'', si_isDelivered = True\<rparr>],
                     item_deliveredCount := 2\<rparr>)"
    by (simp add: key_item_def)
  from t s 1 2 show ?thesis by blast
qed

end
